theory Spec2Isabelle
  imports Main
begin

section \<open>The \<open>group_messaging\<close> models\<close>

text \<open>
  A shallow embedding of \<^verbatim>\<open>group_messaging/models.py\<close>. The relational store is a
  record of tables; every row is a record with the fields of its model class. Foreign
  keys are the key of the row they point to. Operations that write take the store and
  return the store they leave behind together with either the raised exception
  (\<open>Inl\<close>) or the returned value (\<open>Inr\<close>): an exception does not undo the rows written
  before it, since the module opens no transaction. A string is the list of its
  characters, and a time stamp is a natural number read from a clock that the caller
  passes. The model \<^verbatim>\<open>LastVisitTime\<close> has no operation in the module and is left out.
\<close>

subsection \<open>Constants\<close>

definition MAX_TITLE_LENGTH :: nat where
  "MAX_TITLE_LENGTH = 80"

definition MAX_SENDERS_INFO_LENGTH :: nat where
  "MAX_SENDERS_INFO_LENGTH = 64"

definition parse_message :: "'a \<Rightarrow> 'a" where
  "parse_message v = v"

text \<open>\<^verbatim>\<open>MessageMemo.SEEN\<close>, \<^verbatim>\<open>MessageMemo.ARCHIVED\<close>: small integers in the source.\<close>

definition SEEN :: int where
  "SEEN = 0"

definition ARCHIVED :: int where
  "ARCHIVED = 1"

text \<open>\<^verbatim>\<open>Message.STORED\<close>, \<^verbatim>\<open>Message.TEMPORARY\<close>, \<^verbatim>\<open>Message.ONE_TIME\<close>.\<close>

definition STORED :: int where
  "STORED = 0"

definition TEMPORARY :: int where
  "TEMPORARY = 1"

definition ONE_TIME :: int where
  "ONE_TIME = 2"

subsection \<open>Rows and the store\<close>

record user =
  uid :: nat
  username :: string

record group =
  gid :: nat
  gname :: string

text \<open>
  \<open>mid\<close>, \<open>uid\<close> and \<open>gid\<close> are the primary keys (\<^verbatim>\<open>id\<close>) of the rows; \<open>mtext\<close> is the
  field \<^verbatim>\<open>text\<close> of a message; \<open>sender\<close>, \<open>root\<close> and \<open>parent\<close> hold keys.
\<close>

record message =
  mid :: nat
  message_type :: int
  sender :: nat
  senders_info :: string
  root :: "nat option"
  parent :: "nat option"
  headline :: string
  mtext :: "string option"
  html :: "string option"
  sent_at :: nat
  last_active_at :: nat
  active_until :: "nat option"

record memo =
  memo_user :: nat
  memo_message :: nat
  status :: int

record sender_list =
  recipient :: nat
  senders :: "nat list"

text \<open>
  \<open>user_groups\<close> is the many-to-many table behind \<^verbatim>\<open>user.groups\<close> (user key, group key),
  \<open>message_recipients\<close> the one behind \<^verbatim>\<open>Message.recipients\<close> (message key, group key).
  The many-to-many \<^verbatim>\<open>SenderList.senders\<close> is kept inside the row as the list of user keys.
\<close>

record db =
  users :: "user list"
  groups :: "group list"
  user_groups :: "(nat \<times> nat) list"
  messages :: "message list"
  message_recipients :: "(nat \<times> nat) list"
  memos :: "memo list"
  sender_lists :: "sender_list list"

datatype error =
    KeyError
  | TypeError
  | IntegrityError
  | AttributeError
  | DoesNotExist
  | MultipleObjectsReturned

text \<open>A keyword argument: not passed, passed as \<^verbatim>\<open>None\<close>, or passed with a value.\<close>

datatype 'a arg = Absent | PyNone | Given 'a

subsection \<open>Personal groups\<close>

function str_nat :: "nat \<Rightarrow> string" where
  "str_nat n =
     (if n < 10 then [char_of (48 + n)]
      else str_nat (n div 10) @ [char_of (48 + n mod 10)])"
  by pat_completeness auto
termination
  by (relation "measure id") auto

declare str_nat.simps [simp del]

definition GROUP_NAME_TPL :: "nat \<Rightarrow> string" where
  "GROUP_NAME_TPL user_id = ''_personal_'' @ str_nat user_id"

text \<open>\<^verbatim>\<open>Group.objects.get(name=...)\<close>: exactly one row, or an exception.\<close>

definition get_personal_group_by_user_id :: "nat \<Rightarrow> db \<Rightarrow> error + group" where
  "get_personal_group_by_user_id user_id d =
     (case filter (\<lambda>g. gname g = GROUP_NAME_TPL user_id) (groups d) of
        [] \<Rightarrow> Inl DoesNotExist
      | [g] \<Rightarrow> Inr g
      | _ \<Rightarrow> Inl MultipleObjectsReturned)"

definition get_personal_groups_for_users :: "user list \<Rightarrow> db \<Rightarrow> group list" where
  "get_personal_groups_for_users us d =
     (let group_names = map (\<lambda>u. GROUP_NAME_TPL (uid u)) us
      in filter (\<lambda>g. gname g \<in> set group_names) (groups d))"

definition get_personal_group :: "user \<Rightarrow> db \<Rightarrow> error + group" where
  "get_personal_group u d = get_personal_group_by_user_id (uid u) d"

text \<open>
  \<^verbatim>\<open>group.save()\<close> of a new group: the name of a group is unique in the store, so that
  the insertion fails when a group of that name exists.
\<close>

definition create_personal_group :: "user \<Rightarrow> db \<Rightarrow> (error + group) \<times> db" where
  "create_personal_group u d =
     (let g = \<lparr>gid = Suc (fold max (map gid (groups d)) 0),
               gname = GROUP_NAME_TPL (uid u)\<rparr>
      in if \<exists>x \<in> set (groups d). gname x = gname g
         then (Inl IntegrityError, d)
         else (Inr g, d\<lparr>groups := groups d @ [g]\<rparr>))"

subsection \<open>\<^verbatim>\<open>Message.unarchive\<close>\<close>

text \<open>
  \<^verbatim>\<open>self.memos.filter(status=ARCHIVED).update(status=SEEN)\<close>: \<^verbatim>\<open>self.memos\<close> are the
  memo rows whose \<^verbatim>\<open>message\<close> is \<^verbatim>\<open>self\<close>.
\<close>

definition unarchive :: "message \<Rightarrow> db \<Rightarrow> db" where
  "unarchive self d =
     d\<lparr>memos :=
          map (\<lambda>mm. if memo_message mm = mid self \<and> status mm = ARCHIVED
                     then mm\<lparr>status := SEEN\<rparr> else mm)
              (memos d)\<rparr>"

subsection \<open>Row lookups\<close>

text \<open>Following a foreign key loads the row with that key.\<close>

definition get_user :: "nat \<Rightarrow> db \<Rightarrow> user option" where
  "get_user i d = find (\<lambda>u. uid u = i) (users d)"

definition get_message :: "nat \<Rightarrow> db \<Rightarrow> message option" where
  "get_message i d = find (\<lambda>m. mid m = i) (messages d)"

text \<open>\<^verbatim>\<open>user.groups.all()\<close> and \<^verbatim>\<open>message.recipients.all()\<close>.\<close>

definition groups_all :: "user \<Rightarrow> db \<Rightarrow> group list" where
  "groups_all u d = filter (\<lambda>g. (uid u, gid g) \<in> set (user_groups d)) (groups d)"

definition recipients_all :: "message \<Rightarrow> db \<Rightarrow> group list" where
  "recipients_all m d = filter (\<lambda>g. (mid m, gid g) \<in> set (message_recipients d)) (groups d)"

text \<open>Adding to a many-to-many relation inserts the pair unless it is there already.\<close>

definition m2m_add :: "'a \<Rightarrow> 'a list \<Rightarrow> 'a list" where
  "m2m_add x xs = (if x \<in> set xs then xs else xs @ [x])"

text \<open>
  \<^verbatim>\<open>Model.save()\<close>: the row with this key is overwritten by the object's fields, or
  inserted when there is none.
\<close>

definition save :: "message \<Rightarrow> db \<Rightarrow> db" where
  "save self d =
     d\<lparr>messages :=
          (if \<exists>x \<in> set (messages d). mid x = mid self
           then map (\<lambda>x. if mid x = mid self then self else x) (messages d)
           else messages d @ [self])\<rparr>"

text \<open>The key the store gives to the next inserted message: one not in use.\<close>

definition new_message_id :: "db \<Rightarrow> nat" where
  "new_message_id d = Suc (fold max (map mid (messages d)) 0)"

subsection \<open>\<^verbatim>\<open>SenderListManager.get_senders_for_user\<close>\<close>

definition get_senders_for_user :: "user \<Rightarrow> db \<Rightarrow> user list" where
  "get_senders_for_user u d =
     (let ugs = groups_all u d;
          lists = filter (\<lambda>sl. recipient sl \<in> set (map gid ugs)) (sender_lists d);
          user_ids = remdups (concat (map senders lists))
      in filter (\<lambda>x. uid x \<in> set user_ids) (users d))"

subsection \<open>\<^verbatim>\<open>Message.add_recipients\<close>\<close>

text \<open>
  One turn of the loop over the recipients:
  \<^verbatim>\<open>SenderList.objects.get_or_create(recipient=recipient)\<close>, then
  \<^verbatim>\<open>sender_list.senders.add(self.sender)\<close>.
\<close>

definition record_send :: "nat \<Rightarrow> nat \<Rightarrow> db \<Rightarrow> (error + unit) \<times> db" where
  "record_send g s d =
     (case filter (\<lambda>sl. recipient sl = g) (sender_lists d) of
        [] \<Rightarrow> (Inr (), d\<lparr>sender_lists := sender_lists d @ [\<lparr>recipient = g, senders = [s]\<rparr>]\<rparr>)
      | [sl] \<Rightarrow>
          (Inr (),
           d\<lparr>sender_lists :=
                map (\<lambda>x. if recipient x = g then x\<lparr>senders := m2m_add s (senders x)\<rparr> else x)
                    (sender_lists d)\<rparr>)
      | _ \<Rightarrow> (Inl MultipleObjectsReturned, d))"

fun update_sender_lists :: "nat list \<Rightarrow> nat \<Rightarrow> db \<Rightarrow> (error + unit) \<times> db" where
  "update_sender_lists [] s d = (Inr (), d)"
| "update_sender_lists (g # gs) s d =
     (case record_send g s d of
        (Inl e, d') \<Rightarrow> (Inl e, d')
      | (Inr _, d') \<Rightarrow> update_sender_lists gs s d')"

definition add_recipients :: "message \<Rightarrow> group list \<Rightarrow> db \<Rightarrow> (error + unit) \<times> db" where
  "add_recipients self recipients d =
     update_sender_lists (map gid recipients) (sender self)
       (d\<lparr>message_recipients :=
             fold (\<lambda>g rs. m2m_add (mid self, gid g) rs) recipients (message_recipients d)\<rparr>)"

subsection \<open>\<^verbatim>\<open>Message.update_senders_info\<close>\<close>

text \<open>\<^verbatim>\<open>str.split(',')\<close> and \<^verbatim>\<open>','.join(...)\<close>.\<close>

fun split_comma :: "string \<Rightarrow> string list" where
  "split_comma [] = [[]]"
| "split_comma (c # cs) =
     (if c = CHR '','' then [] # split_comma cs
      else (case split_comma cs of
              [] \<Rightarrow> [[c]]
            | w # ws \<Rightarrow> (c # w) # ws))"

fun join_comma :: "string list \<Rightarrow> string" where
  "join_comma [] = []"
| "join_comma [x] = x"
| "join_comma (x # y # zs) = x @ CHR '','' # join_comma (y # zs)"

definition update_senders_info :: "message \<Rightarrow> db \<Rightarrow> (error + message) \<times> db" where
  "update_senders_info self d =
     (let senders_names = split_comma (senders_info self)
      in case get_user (sender self) d of
           None \<Rightarrow> (Inl DoesNotExist, d)
         | Some u \<Rightarrow>
             let senders_names =
                   (if username u \<in> set senders_names
                    then remove1 (username u) senders_names else senders_names);
                 senders_names = username u # senders_names;
                 self' = self\<lparr>senders_info := take 64 (join_comma senders_names)\<rparr>
             in (Inr self', save self' d))"

subsection \<open>\<^verbatim>\<open>MessageManager.create\<close>\<close>

text \<open>
  The keyword arguments of \<open>create\<close>. \<^verbatim>\<open>root\<close> and \<^verbatim>\<open>parent\<close> are read with
  \<^verbatim>\<open>kwargs.get\<close>, so that a missing one and \<^verbatim>\<open>None\<close> are the same; \<^verbatim>\<open>text\<close> is read with
  \<^verbatim>\<open>kwargs['text']\<close>. The sender is a user: both callers in the module pass one, and
  the column is not null. A missing \<^verbatim>\<open>message_type\<close> or \<^verbatim>\<open>senders_info\<close> gets the
  default of the field.
\<close>

record kwargs =
  kw_root :: "message option"
  kw_parent :: "message option"
  kw_text :: "string arg"
  kw_headline :: "string arg"
  kw_sender :: user
  kw_message_type :: "int option"
  kw_senders_info :: "string option"

text \<open>
  Lines 136 to 144: the object left in \<^verbatim>\<open>kwargs['root']\<close>. \<^verbatim>\<open>parent.root\<close> follows
  the foreign key of the parent, and the new message keeps that object as its
  \<^verbatim>\<open>message.root\<close>.
\<close>

definition message_root :: "kwargs \<Rightarrow> db \<Rightarrow> error + message option" where
  "message_root kw d =
     (case kw_root kw of
        Some r \<Rightarrow> Inr (Some r)
      | None \<Rightarrow>
          (case kw_parent kw of
             None \<Rightarrow> Inr None
           | Some p \<Rightarrow>
               (case root p of
                  Some rid \<Rightarrow>
                    (case get_message rid d of
                       None \<Rightarrow> Inl DoesNotExist
                     | Some r \<Rightarrow> Inr (Some r))
                | None \<Rightarrow> Inr (Some p))))"

text \<open>
  \<open>now\<close> is the clock read by the \<^verbatim>\<open>auto_now_add\<close> fields. The message row is inserted
  first, the memo of the sender second; \<^verbatim>\<open>unique_together = ('user', 'message')\<close> makes
  the second insertion fail when such a memo row exists.
\<close>

definition create :: "kwargs \<Rightarrow> nat \<Rightarrow> db \<Rightarrow> (error + message) \<times> db" where
  "create kw now d =
     (case message_root kw d of
        Inl e \<Rightarrow> (Inl e, d)
      | Inr root_obj \<Rightarrow>
          (case kw_text kw of
             Absent \<Rightarrow> (Inl KeyError, d)
           | _ \<Rightarrow>
               (let text_v = (case kw_text kw of Given t \<Rightarrow> Some t | _ \<Rightarrow> None);
                    headline_v =
                      (case kw_headline kw of
                         Absent \<Rightarrow> text_v
                       | PyNone \<Rightarrow> None
                       | Given h \<Rightarrow> Some h)
                in case headline_v of
                     None \<Rightarrow> (Inl TypeError, d)
                   | Some h \<Rightarrow>
                       (let message =
                              \<lparr>mid = new_message_id d,
                               message_type =
                                 (case kw_message_type kw of None \<Rightarrow> STORED | Some t \<Rightarrow> t),
                               sender = uid (kw_sender kw),
                               senders_info =
                                 (case kw_senders_info kw of None \<Rightarrow> [] | Some s \<Rightarrow> s),
                               root = map_option mid root_obj,
                               parent = map_option mid (kw_parent kw),
                               headline = take MAX_TITLE_LENGTH h,
                               mtext = text_v,
                               html = parse_message text_v,
                               sent_at = now,
                               last_active_at = now,
                               active_until = None\<rparr>;
                            d1 = d\<lparr>messages := messages d @ [message]\<rparr>
                        in if \<exists>mm \<in> set (memos d1).
                                memo_user mm = uid (kw_sender kw) \<and> memo_message mm = mid message
                           then (Inl IntegrityError, d1)
                           else (Inr message,
                                 d1\<lparr>memos := memos d1 @
                                       [\<lparr>memo_user = uid (kw_sender kw),
                                         memo_message = mid message,
                                         status = SEEN\<rparr>]\<rparr>)))))"

subsection \<open>\<^verbatim>\<open>MessageManager.create_thread\<close> and \<^verbatim>\<open>create_response\<close>\<close>

definition create_thread ::
  "user \<Rightarrow> group list \<Rightarrow> string option \<Rightarrow> nat \<Rightarrow> db \<Rightarrow> (error + message) \<times> db" where
  "create_thread sender_u recipients text_v now d =
     (case create \<lparr>kw_root = None, kw_parent = None,
                   kw_text = (case text_v of None \<Rightarrow> PyNone | Some t \<Rightarrow> Given t),
                   kw_headline = Absent, kw_sender = sender_u,
                   kw_message_type = Some STORED,
                   kw_senders_info = Some (username sender_u)\<rparr> now d of
        (Inl e, d1) \<Rightarrow> (Inl e, d1)
      | (Inr message, d1) \<Rightarrow>
          (case add_recipients message recipients d1 of
             (Inl e, d2) \<Rightarrow> (Inl e, d2)
           | (Inr _, d2) \<Rightarrow> (Inr message, d2)))"

definition response_kwargs :: "user \<Rightarrow> string option \<Rightarrow> message option \<Rightarrow> kwargs" where
  "response_kwargs sender_u text_v parent_m =
     \<lparr>kw_root = None, kw_parent = parent_m,
      kw_text = (case text_v of None \<Rightarrow> PyNone | Some t \<Rightarrow> Given t),
      kw_headline = Absent, kw_sender = sender_u,
      kw_message_type = Some STORED, kw_senders_info = None\<rparr>"

text \<open>
  \<open>t_sent\<close> is the clock at the insertion, \<open>now\<close> the later
  \<^verbatim>\<open>datetime.datetime.now()\<close>. The set of recipients is walked in the order of
  \<^verbatim>\<open>parent.recipients.all()\<close>, the group of the parent's sender last when it is new.
\<close>

definition create_response ::
  "user \<Rightarrow> string option \<Rightarrow> message option \<Rightarrow> nat \<Rightarrow> nat \<Rightarrow> db \<Rightarrow> (error + message) \<times> db" where
  "create_response sender_u text_v parent_m t_sent now d =
     (case create (response_kwargs sender_u text_v parent_m) t_sent d of
        (Inl e, d1) \<Rightarrow> (Inl e, d1)
      | (Inr message, d1) \<Rightarrow>
          (case parent_m of
             None \<Rightarrow> (Inl AttributeError, d1)
           | Some p \<Rightarrow>
               (let recipients = remdups (recipients_all p d1)
                in case get_user (sender p) d1 of
                     None \<Rightarrow> (Inl DoesNotExist, d1)
                   | Some parent_sender \<Rightarrow>
                       (case get_personal_group parent_sender d1 of
                          Inl e \<Rightarrow> (Inl e, d1)
                        | Inr senders_group \<Rightarrow>
                            (let recipients = m2m_add senders_group recipients
                             in case add_recipients message recipients d1 of
                                  (Inl e, d2) \<Rightarrow> (Inl e, d2)
                                | (Inr _, d2) \<Rightarrow>
                                    (case add_recipients p [senders_group] d2 of
                                       (Inl e, d3) \<Rightarrow> (Inl e, d3)
                                     | (Inr _, d3) \<Rightarrow>
                                         (case message_root
                                                 (response_kwargs sender_u text_v parent_m) d of
                                            Inl e \<Rightarrow> (Inl e, d3)
                                          | Inr None \<Rightarrow> (Inl AttributeError, d3)
                                          | Inr (Some r) \<Rightarrow>
                                              (case update_senders_info
                                                      (r\<lparr>last_active_at := now\<rparr>) d3 of
                                                 (Inl e, d4) \<Rightarrow> (Inl e, d4)
                                               | (Inr r', d4) \<Rightarrow>
                                                   (Inr message, unarchive r' d4)))))))))"

subsection \<open>\<^verbatim>\<open>MessageManager.get_threads\<close>\<close>

text \<open>
  The rows of \<^verbatim>\<open>user_thread_filter\<close> (with the sender condition when a sender is given):
  the join of the messages with their recipient rows, one row for every recipient group
  that is a group of the user.
\<close>

definition thread_rows :: "user \<Rightarrow> user option \<Rightarrow> db \<Rightarrow> message list" where
  "thread_rows recipient_u sender_opt d =
     (let ugs = groups_all recipient_u d
      in [m. m \<leftarrow> messages d, (i, g) \<leftarrow> message_recipients d,
             i = mid m \<and> root m = None \<and> message_type m = STORED \<and> g \<in> set (map gid ugs)
             \<and> (case sender_opt of None \<Rightarrow> True | Some s \<Rightarrow> sender m = uid s)])"

text \<open>
  The conditions on \<^verbatim>\<open>memos__status\<close> and \<^verbatim>\<open>memos__user\<close> stand in one filter call, so
  they hold of one and the same memo row; the negated condition excludes the messages
  that have any memo row of the user.
\<close>

definition get_threads :: "user \<Rightarrow> user option \<Rightarrow> bool \<Rightarrow> db \<Rightarrow> message list" where
  "get_threads recipient_u sender_opt deleted d =
     (let rows = thread_rows recipient_u sender_opt d
      in if deleted then
           [m. m \<leftarrow> rows, mm \<leftarrow> memos d,
               memo_message mm = mid m \<and> status mm = ARCHIVED \<and> memo_user mm = uid recipient_u]
         else
           (let part1 =
                  [m. m \<leftarrow> rows, mm \<leftarrow> memos d,
                      memo_message mm = mid m \<and> status mm = SEEN
                      \<and> memo_user mm = uid recipient_u];
                part2 =
                  filter (\<lambda>m. \<not> (\<exists>mm \<in> set (memos d).
                                     memo_message mm = mid m \<and> memo_user mm = uid recipient_u))
                         rows
            in remdups (part1 @ part2)))"

subsection \<open>Threads\<close>

text \<open>
  \<open>topmost d i r\<close>: following the \<open>parent\<close> keys from the message with key \<open>i\<close> ends at
  the message with key \<open>r\<close>, which has no parent.
\<close>

inductive topmost :: "db \<Rightarrow> nat \<Rightarrow> nat \<Rightarrow> bool" for d :: db where
  top: "get_message i d = Some m \<Longrightarrow> parent m = None \<Longrightarrow> topmost d i i"
| up: "get_message i d = Some m \<Longrightarrow> parent m = Some p \<Longrightarrow> topmost d p r \<Longrightarrow> topmost d i r"

text \<open>
  The keys of the messages are distinct; a message without a parent has no root, and
  the root of a message with a parent is its topmost ancestor.
\<close>

definition root_invariant :: "db \<Rightarrow> bool" where
  "root_invariant d \<longleftrightarrow>
     distinct (map mid (messages d)) \<and>
     (\<forall>m \<in> set (messages d).
        (parent m = None \<and> root m = None) \<or>
        (\<exists>p r. parent m = Some p \<and> root m = Some r \<and> topmost d (mid m) r))"

text \<open>
  The stores built from one without messages by \<open>create_thread\<close> and by
  \<open>create_response\<close> to a stored message, whether the call returns or raises.
\<close>

inductive reachable :: "db \<Rightarrow> bool" where
  init: "messages d = [] \<Longrightarrow> reachable d"
| thread: "reachable d \<Longrightarrow> reachable (snd (create_thread s rs t now d))"
| response:
    "reachable d \<Longrightarrow> p \<in> set (messages d) \<Longrightarrow>
     reachable (snd (create_response s t (Some p) t_sent now d))"

text \<open>\<^verbatim>\<open>unique_together = ('user', 'message')\<close> on the memo table.\<close>

definition memo_unique :: "db \<Rightarrow> bool" where
  "memo_unique d \<longleftrightarrow> distinct (map (\<lambda>mm. (memo_user mm, memo_message mm)) (memos d))"


subsection \<open>Example stores\<close>

definition user_a :: user where
  "user_a = \<lparr>uid = 1, username = ''A''\<rparr>"

definition user_b :: user where
  "user_b = \<lparr>uid = 2, username = ''B''\<rparr>"

definition user_c :: user where
  "user_c = \<lparr>uid = 3, username = ''C''\<rparr>"

definition group_a :: group where
  "group_a = \<lparr>gid = 1, gname = ''_personal_1''\<rparr>"

definition group_b :: group where
  "group_b = \<lparr>gid = 2, gname = ''_personal_2''\<rparr>"

definition group_c :: group where
  "group_c = \<lparr>gid = 3, gname = ''_personal_3''\<rparr>"

definition group_all :: group where
  "group_all = \<lparr>gid = 4, gname = ''everyone''\<rparr>"

text \<open>Three users, each in a personal group and in the group of everyone; no message.\<close>

definition ex_db0 :: db where
  "ex_db0 =
     \<lparr>users = [user_a, user_b, user_c],
      groups = [group_a, group_b, group_c, group_all],
      user_groups = [(1, 1), (2, 2), (3, 3), (1, 4), (2, 4), (3, 4)],
      messages = [], message_recipients = [], memos = [], sender_lists = []\<rparr>"

text \<open>The thread that A has sent to everyone, and the store after it.\<close>

definition ex_msg1 :: message where
  "ex_msg1 =
     \<lparr>mid = 1, message_type = 0, sender = 1, senders_info = ''A'', root = None,
      parent = None, headline = ''hello'', mtext = Some ''hello'', html = Some ''hello'',
      sent_at = 5, last_active_at = 5, active_until = None\<rparr>"

definition ex_db1 :: db where
  "ex_db1 = snd (create_thread user_a [group_all] (Some ''hello'') 5 ex_db0)"

text \<open>The answer of B to that thread, and the store after it.\<close>

definition ex_msg2 :: message where
  "ex_msg2 =
     \<lparr>mid = 2, message_type = 0, sender = 2, senders_info = [], root = Some 1,
      parent = Some 1, headline = ''re'', mtext = Some ''re'', html = Some ''re'',
      sent_at = 6, last_active_at = 6, active_until = None\<rparr>"

definition ex_db2 :: db where
  "ex_db2 = snd (create_response user_b (Some ''re'') (Some ex_msg1) 6 7 ex_db1)"

text \<open>
  A thread and its answer with memos: on the thread A has archived and B has seen, C
  has no memo; on the answer B has seen and A has archived.
\<close>

definition ex_memo_db :: db where
  "ex_memo_db =
     \<lparr>users = [user_a, user_b, user_c],
      groups = [group_a, group_b, group_c, group_all],
      user_groups = [(1, 1), (2, 2), (3, 3), (1, 4), (2, 4), (3, 4)],
      messages = [ex_msg1, ex_msg2],
      message_recipients = [(1, 4), (2, 4), (2, 1), (1, 1)],
      memos =
        [\<lparr>memo_user = 1, memo_message = 1, status = ARCHIVED\<rparr>,
         \<lparr>memo_user = 2, memo_message = 1, status = SEEN\<rparr>,
         \<lparr>memo_user = 2, memo_message = 2, status = SEEN\<rparr>,
         \<lparr>memo_user = 1, memo_message = 2, status = ARCHIVED\<rparr>],
      sender_lists =
        [\<lparr>recipient = 4, senders = [1, 2]\<rparr>, \<lparr>recipient = 1, senders = [2, 1]\<rparr>]\<rparr>"

text \<open>
  A call of \<open>create\<close> on the store with the thread of A that passes that thread as the
  root and no parent, the message it returns and the store it leaves.
\<close>

definition ex_root_kwargs :: kwargs where
  "ex_root_kwargs =
     \<lparr>kw_root = Some ex_msg1, kw_parent = None, kw_text = Given ''x'', kw_headline = Absent,
      kw_sender = user_a, kw_message_type = None, kw_senders_info = None\<rparr>"

definition ex_msg3 :: message where
  "ex_msg3 =
     \<lparr>mid = 2, message_type = 0, sender = 1, senders_info = [], root = Some 1,
      parent = None, headline = ''x'', mtext = Some ''x'', html = Some ''x'',
      sent_at = 9, last_active_at = 9, active_until = None\<rparr>"

definition ex_db3 :: db where
  "ex_db3 = snd (create ex_root_kwargs 9 ex_db1)"

definition ex_kwargs :: "string \<Rightarrow> kwargs" where
  "ex_kwargs t =
     \<lparr>kw_root = None, kw_parent = None, kw_text = Given t, kw_headline = Absent,
      kw_sender = user_a, kw_message_type = None, kw_senders_info = None\<rparr>"

section \<open>Evaluation of the examples\<close>

lemmas const_defs =
  SEEN_def ARCHIVED_def STORED_def MAX_TITLE_LENGTH_def parse_message_def

lemmas ex_defs =
  user_a_def user_b_def user_c_def group_a_def group_b_def group_c_def group_all_def
  ex_db0_def ex_msg1_def ex_msg2_def ex_memo_db_def ex_kwargs_def

section \<open>Unarchiving\<close>

lemma unarchive_length: "length (memos (unarchive self d)) = length (memos d)"
  by (simp add: unarchive_def)

lemma unarchive_nth:
  "i < length (memos d) \<Longrightarrow>
   memos (unarchive self d) ! i =
     (if memo_message (memos d ! i) = mid self \<and> status (memos d ! i) = ARCHIVED
      then (memos d ! i)\<lparr>status := SEEN\<rparr> else memos d ! i)"
  by (simp add: unarchive_def)

lemma unarchive_other_tables: "unarchive self d = d\<lparr>memos := memos (unarchive self d)\<rparr>"
  by (simp add: unarchive_def)

lemma unarchive_noop:
  assumes "\<forall>mm \<in> set (memos d). memo_message mm = mid self \<longrightarrow> status mm \<noteq> ARCHIVED"
  shows "unarchive self d = d"
proof -
  have "map (\<lambda>mm. if memo_message mm = mid self \<and> status mm = ARCHIVED
                     then mm\<lparr>status := SEEN\<rparr> else mm) (memos d) = memos d"
    using assms by (intro map_idI) auto
  then show ?thesis by (simp add: unarchive_def)
qed

text \<open>
  Claim C5. \<open>unarchive\<close> keeps the memo rows in place, each with its user and message.
  Every memo of the message that was ARCHIVED is SEEN afterwards, and none of its memos
  is ARCHIVED any more; a memo that was SEEN is the same row afterwards; a user without
  a memo on the message has none afterwards; and when no memo of the message is
  ARCHIVED the store is left as it was.
\<close>

theorem unarchive_transitions:
  "length (memos (unarchive self d)) = length (memos d) \<and>
   (\<forall>i < length (memos d).
      memo_user (memos (unarchive self d) ! i) = memo_user (memos d ! i) \<and>
      memo_message (memos (unarchive self d) ! i) = memo_message (memos d ! i) \<and>
      (memo_message (memos d ! i) = mid self \<and> status (memos d ! i) = ARCHIVED \<longrightarrow>
         status (memos (unarchive self d) ! i) = SEEN) \<and>
      (status (memos d ! i) = SEEN \<longrightarrow> memos (unarchive self d) ! i = memos d ! i)) \<and>
   (\<forall>mm \<in> set (memos (unarchive self d)).
      memo_message mm = mid self \<longrightarrow> status mm \<noteq> ARCHIVED) \<and>
   ((\<forall>mm \<in> set (memos d). memo_message mm = mid self \<longrightarrow> status mm \<noteq> ARCHIVED) \<longrightarrow>
      unarchive self d = d) \<and>
   (\<forall>u. (\<forall>mm \<in> set (memos d). \<not> (memo_user mm = u \<and> memo_message mm = mid self)) \<longrightarrow>
        (\<forall>mm \<in> set (memos (unarchive self d)).
           \<not> (memo_user mm = u \<and> memo_message mm = mid self)))"
proof (intro conjI)
  show "length (memos (unarchive self d)) = length (memos d)"
    by (rule unarchive_length)
  show "\<forall>i < length (memos d).
      memo_user (memos (unarchive self d) ! i) = memo_user (memos d ! i) \<and>
      memo_message (memos (unarchive self d) ! i) = memo_message (memos d ! i) \<and>
      (memo_message (memos d ! i) = mid self \<and> status (memos d ! i) = ARCHIVED \<longrightarrow>
         status (memos (unarchive self d) ! i) = SEEN) \<and>
      (status (memos d ! i) = SEEN \<longrightarrow> memos (unarchive self d) ! i = memos d ! i)"
    by (simp add: unarchive_nth SEEN_def ARCHIVED_def)
  show "\<forall>mm \<in> set (memos (unarchive self d)).
      memo_message mm = mid self \<longrightarrow> status mm \<noteq> ARCHIVED"
    by (auto simp: unarchive_def SEEN_def ARCHIVED_def)
  show "(\<forall>mm \<in> set (memos d). memo_message mm = mid self \<longrightarrow> status mm \<noteq> ARCHIVED) \<longrightarrow>
      unarchive self d = d"
    using unarchive_noop by blast
  show "\<forall>u. (\<forall>mm \<in> set (memos d). \<not> (memo_user mm = u \<and> memo_message mm = mid self)) \<longrightarrow>
        (\<forall>mm \<in> set (memos (unarchive self d)).
           \<not> (memo_user mm = u \<and> memo_message mm = mid self))"
    by (auto simp: unarchive_def)
qed

text \<open>
  On the example thread: the archived memo of A becomes SEEN, the memo of B stays, C
  has no memo before or after; unarchiving the answer of B, which has no archived memo
  in the second store, changes nothing.
\<close>

theorem unarchive_transitions_witness:
  "status (memos (unarchive ex_msg1 ex_memo_db) ! 0) = SEEN \<and>
   memos (unarchive ex_msg1 ex_memo_db) ! 1 = memos ex_memo_db ! 1 \<and>
   map memo_user (memos (unarchive ex_msg1 ex_memo_db)) = [1, 2, 2, 1] \<and>
   map memo_message (memos (unarchive ex_msg1 ex_memo_db)) = [1, 1, 2, 2] \<and>
   unarchive ex_msg2 (ex_memo_db\<lparr>memos := take 3 (memos ex_memo_db)\<rparr>) =
     ex_memo_db\<lparr>memos := take 3 (memos ex_memo_db)\<rparr>"
proof -
  have len: "length (memos ex_memo_db) = 4"
    by (simp add: ex_memo_db_def)
  have a: "memo_message (memos ex_memo_db ! 0) = mid ex_msg1 \<and>
           status (memos ex_memo_db ! 0) = ARCHIVED"
    by (simp add: ex_memo_db_def ex_msg1_def)
  have b: "status (memos ex_memo_db ! 1) = SEEN"
    by (simp add: ex_memo_db_def)
  have none_archived:
    "\<forall>mm \<in> set (memos (ex_memo_db\<lparr>memos := take 3 (memos ex_memo_db)\<rparr>)).
       memo_message mm = mid ex_msg2 \<longrightarrow> status mm \<noteq> ARCHIVED"
    by (simp add: ex_memo_db_def ex_msg2_def const_defs)
  note t = unarchive_transitions [of ex_msg1 ex_memo_db]
  note t' = unarchive_transitions [of ex_msg2 "ex_memo_db\<lparr>memos := take 3 (memos ex_memo_db)\<rparr>"]
  have "status (memos (unarchive ex_msg1 ex_memo_db) ! 0) = SEEN"
    using t a len by simp
  moreover have "memos (unarchive ex_msg1 ex_memo_db) ! 1 = memos ex_memo_db ! 1"
    using t b len by simp
  moreover have "map memo_user (memos (unarchive ex_msg1 ex_memo_db)) = [1, 2, 2, 1]"
    by (simp add: unarchive_def ex_memo_db_def)
  moreover have "map memo_message (memos (unarchive ex_msg1 ex_memo_db)) = [1, 1, 2, 2]"
    by (simp add: unarchive_def ex_memo_db_def)
  moreover have "unarchive ex_msg2 (ex_memo_db\<lparr>memos := take 3 (memos ex_memo_db)\<rparr>) =
     ex_memo_db\<lparr>memos := take 3 (memos ex_memo_db)\<rparr>"
    using t' none_archived by blast
  ultimately show ?thesis by blast
qed

text \<open>
  Claim C10. \<open>unarchive\<close> writes the memo table only; there it leaves every row whose
  message is not the given one as it is, whatever its status, and changes neither the
  user nor the message of any row.
\<close>

theorem unarchive_frame:
  "users (unarchive self d) = users d \<and>
   groups (unarchive self d) = groups d \<and>
   user_groups (unarchive self d) = user_groups d \<and>
   messages (unarchive self d) = messages d \<and>
   message_recipients (unarchive self d) = message_recipients d \<and>
   sender_lists (unarchive self d) = sender_lists d \<and>
   length (memos (unarchive self d)) = length (memos d) \<and>
   (\<forall>i < length (memos d).
      memo_user (memos (unarchive self d) ! i) = memo_user (memos d ! i) \<and>
      memo_message (memos (unarchive self d) ! i) = memo_message (memos d ! i) \<and>
      (memo_message (memos d ! i) \<noteq> mid self \<longrightarrow>
         memos (unarchive self d) ! i = memos d ! i))"
proof -
  have "\<forall>i < length (memos d).
      memo_user (memos (unarchive self d) ! i) = memo_user (memos d ! i) \<and>
      memo_message (memos (unarchive self d) ! i) = memo_message (memos d ! i) \<and>
      (memo_message (memos d ! i) \<noteq> mid self \<longrightarrow>
         memos (unarchive self d) ! i = memos d ! i)"
    by (simp add: unarchive_nth)
  then show ?thesis
    by (simp add: unarchive_def)
qed

text \<open>
  In the example the answer (key 2) belongs to the thread of the message with key 1 and
  has an archived memo of A: unarchiving the thread leaves that memo archived.
\<close>

theorem unarchive_frame_witness:
  "root ex_msg2 = Some (mid ex_msg1) \<and>
   memos ex_memo_db ! 3 = \<lparr>memo_user = 1, memo_message = 2, status = ARCHIVED\<rparr> \<and>
   memos (unarchive ex_msg1 ex_memo_db) ! 3 =
     \<lparr>memo_user = 1, memo_message = 2, status = ARCHIVED\<rparr> \<and>
   messages (unarchive ex_msg1 ex_memo_db) = [ex_msg1, ex_msg2]"
proof -
  have len: "3 < length (memos ex_memo_db)"
    by (simp add: ex_memo_db_def)
  have other: "memo_message (memos ex_memo_db ! 3) \<noteq> mid ex_msg1"
    by (simp add: ex_memo_db_def ex_msg1_def)
  have row: "memos ex_memo_db ! 3 = \<lparr>memo_user = 1, memo_message = 2, status = ARCHIVED\<rparr>"
    by (simp add: ex_memo_db_def)
  have "memos (unarchive ex_msg1 ex_memo_db) ! 3 = memos ex_memo_db ! 3"
    using unarchive_frame [of ex_msg1 ex_memo_db] len other by blast
  moreover have "messages (unarchive ex_msg1 ex_memo_db) = messages ex_memo_db"
    using unarchive_frame [of ex_msg1 ex_memo_db] by blast
  moreover have "root ex_msg2 = Some (mid ex_msg1)"
    by (simp add: ex_msg1_def ex_msg2_def)
  moreover have "messages ex_memo_db = [ex_msg1, ex_msg2]"
    by (simp add: ex_memo_db_def)
  ultimately show ?thesis using row by simp
qed

section \<open>The thread query\<close>

lemma recipients_intersect:
  "set (recipients_all m d) \<inter> set (groups_all R d) \<noteq> {} \<longleftrightarrow>
   (\<exists>g. (mid m, g) \<in> set (message_recipients d) \<and> g \<in> set (map gid (groups_all R d)))"
  unfolding recipients_all_def groups_all_def by auto

lemma thread_rows_set:
  "set (thread_rows R s d) =
     {m \<in> set (messages d). root m = None \<and> message_type m = STORED \<and>
        set (recipients_all m d) \<inter> set (groups_all R d) \<noteq> {} \<and>
        (case s of None \<Rightarrow> True | Some u \<Rightarrow> sender m = uid u)}"
proof -
  have "set (thread_rows R s d) =
     {m \<in> set (messages d). root m = None \<and> message_type m = STORED \<and>
        (\<exists>g. (mid m, g) \<in> set (message_recipients d) \<and> g \<in> set (map gid (groups_all R d))) \<and>
        (case s of None \<Rightarrow> True | Some u \<Rightarrow> sender m = uid u)}"
    unfolding thread_rows_def Let_def by (cases s) force+
  then show ?thesis by (simp only: recipients_intersect)
qed

text \<open>
  Claim C1. A message is in the result of \<open>get_threads\<close> exactly when it is a stored
  message without root, of type STORED, whose recipients meet the groups of the
  recipient user, sent by the given sender when one is given, and
  \<^item> with \<open>deleted\<close>: it has a memo of the user with status ARCHIVED;
  \<^item> without: it has a memo of the user with status SEEN, or no memo of the user at all.
  Without \<open>deleted\<close> the result has no duplicates.
\<close>

theorem get_threads_membership:
  "(m \<in> set (get_threads R s deleted d) \<longleftrightarrow>
      m \<in> set (messages d) \<and> root m = None \<and> message_type m = STORED \<and>
      set (recipients_all m d) \<inter> set (groups_all R d) \<noteq> {} \<and>
      (case s of None \<Rightarrow> True | Some u \<Rightarrow> sender m = uid u) \<and>
      (if deleted
       then (\<exists>mm \<in> set (memos d).
               memo_message mm = mid m \<and> memo_user mm = uid R \<and> status mm = ARCHIVED)
       else (\<exists>mm \<in> set (memos d).
               memo_message mm = mid m \<and> memo_user mm = uid R \<and> status mm = SEEN) \<or>
            \<not> (\<exists>mm \<in> set (memos d). memo_message mm = mid m \<and> memo_user mm = uid R)))
   \<and> distinct (get_threads R s False d)"
proof -
  have rows: "\<And>x. x \<in> set (thread_rows R s d) \<longleftrightarrow>
      x \<in> set (messages d) \<and> root x = None \<and> message_type x = STORED \<and>
      set (recipients_all x d) \<inter> set (groups_all R d) \<noteq> {} \<and>
      (case s of None \<Rightarrow> True | Some u \<Rightarrow> sender x = uid u)"
    by (simp add: thread_rows_set)
  show ?thesis
  proof (cases deleted)
    case True
    then show ?thesis
      unfolding get_threads_def Let_def using rows by auto
  next
    case False
    then show ?thesis
      unfolding get_threads_def Let_def using rows by auto
  qed
qed

lemma ex_memo_db_base:
  "ex_msg1 \<in> set (messages ex_memo_db) \<and> root ex_msg1 = None \<and>
   message_type ex_msg1 = STORED \<and> sender ex_msg1 = uid user_a"
  by (simp add: ex_defs const_defs)

lemma ex_memo_db_groups:
  "group_all \<in> set (recipients_all ex_msg1 ex_memo_db) \<and>
   group_all \<in> set (groups_all user_a ex_memo_db) \<and>
   group_all \<in> set (groups_all user_b ex_memo_db) \<and>
   group_all \<in> set (groups_all user_c ex_memo_db)"
  by (simp add: ex_defs recipients_all_def groups_all_def)

text \<open>
  In the example the thread of A is in the inbox of C, who has no memo, and of B, who
  has seen it (also when the sender A is asked for), and in the deleted view of A.
\<close>

theorem get_threads_membership_witness:
  "ex_msg1 \<in> set (get_threads user_c None False ex_memo_db) \<and>
   ex_msg1 \<in> set (get_threads user_b (Some user_a) False ex_memo_db) \<and>
   ex_msg1 \<in> set (get_threads user_a None True ex_memo_db) \<and>
   distinct (get_threads user_b None False ex_memo_db)"
proof -
  have c: "\<not> (\<exists>mm \<in> set (memos ex_memo_db).
              memo_message mm = mid ex_msg1 \<and> memo_user mm = uid user_c)"
    by (simp add: ex_defs)
  have b: "\<exists>mm \<in> set (memos ex_memo_db).
              memo_message mm = mid ex_msg1 \<and> memo_user mm = uid user_b \<and> status mm = SEEN"
    by (simp add: ex_defs)
  have a: "\<exists>mm \<in> set (memos ex_memo_db).
              memo_message mm = mid ex_msg1 \<and> memo_user mm = uid user_a \<and> status mm = ARCHIVED"
    by (simp add: ex_defs)
  have "ex_msg1 \<in> set (get_threads user_c None False ex_memo_db)"
    using get_threads_membership [of ex_msg1 user_c None False ex_memo_db]
      c ex_memo_db_base ex_memo_db_groups by auto
  moreover have "ex_msg1 \<in> set (get_threads user_b (Some user_a) False ex_memo_db)"
    using get_threads_membership [of ex_msg1 user_b "Some user_a" False ex_memo_db]
      b ex_memo_db_base ex_memo_db_groups by auto
  moreover have "ex_msg1 \<in> set (get_threads user_a None True ex_memo_db)"
    using get_threads_membership [of ex_msg1 user_a None True ex_memo_db]
      a ex_memo_db_base ex_memo_db_groups by auto
  moreover have "distinct (get_threads user_b None False ex_memo_db)"
    using get_threads_membership [of ex_msg1 user_b None False ex_memo_db] by blast
  ultimately show ?thesis by blast
qed

lemma memo_unique_same_row:
  assumes "memo_unique d" "mm \<in> set (memos d)" "mm' \<in> set (memos d)"
    "memo_user mm = memo_user mm'" "memo_message mm = memo_message mm'"
  shows "mm = mm'"
proof -
  have "inj_on (\<lambda>mm. (memo_user mm, memo_message mm)) (set (memos d))"
    using assms(1) by (simp add: memo_unique_def distinct_map)
  then show ?thesis using assms(2-5) by (auto dest: inj_onD)
qed

text \<open>
  Claim C9. When the memo table has at most one row for every pair of user and
  message, no message is both in the inbox view and in the deleted view of
  \<open>get_threads\<close> for the same recipient and the same sender filter.
\<close>

theorem get_threads_disjoint:
  assumes "memo_unique d"
  shows "set (get_threads R s False d) \<inter> set (get_threads R s True d) = {}"
proof -
  have "\<not> (m \<in> set (get_threads R s False d) \<and> m \<in> set (get_threads R s True d))" for m
  proof
    assume h: "m \<in> set (get_threads R s False d) \<and> m \<in> set (get_threads R s True d)"
    from h obtain a where a: "a \<in> set (memos d)" "memo_message a = mid m"
        "memo_user a = uid R" "status a = ARCHIVED"
      unfolding get_threads_def Let_def by auto
    from h have
      "(\<exists>b \<in> set (memos d). memo_message b = mid m \<and> memo_user b = uid R \<and> status b = SEEN)
       \<or> \<not> (\<exists>b \<in> set (memos d). memo_message b = mid m \<and> memo_user b = uid R)"
      unfolding get_threads_def Let_def by auto
    then show False
    proof
      assume "\<exists>b \<in> set (memos d).
                memo_message b = mid m \<and> memo_user b = uid R \<and> status b = SEEN"
      then obtain b where b: "b \<in> set (memos d)" "memo_message b = mid m"
        "memo_user b = uid R" "status b = SEEN" by auto
      have "a = b" using memo_unique_same_row [OF assms a(1) b(1)] a b by simp
      then show False using a(4) b(4) by (simp add: SEEN_def ARCHIVED_def)
    next
      assume "\<not> (\<exists>b \<in> set (memos d). memo_message b = mid m \<and> memo_user b = uid R)"
      then show False using a by auto
    qed
  qed
  then show ?thesis by auto
qed

text \<open>
  The example store has one memo for every pair; the thread of A is in the deleted
  view of A, twice, once for each of the two recipient groups A is a member of, and
  the inbox view of A is empty.
\<close>

theorem get_threads_disjoint_witness:
  "memo_unique ex_memo_db \<and>
   get_threads user_a None True ex_memo_db = [ex_msg1, ex_msg1] \<and>
   set (get_threads user_a None False ex_memo_db) \<inter>
     set (get_threads user_a None True ex_memo_db) = {}"
proof -
  have u: "memo_unique ex_memo_db"
    by (simp add: memo_unique_def ex_defs)
  have "get_threads user_a None True ex_memo_db = [ex_msg1, ex_msg1]"
    by (simp add: get_threads_def thread_rows_def groups_all_def ex_defs const_defs)
  then show ?thesis
    using u get_threads_disjoint [OF u, of user_a None] by simp
qed

section \<open>Creating a message\<close>

lemma create_Inr:
  assumes "create kw now d = (Inr m, d')"
  shows "\<exists>root_obj h.
      message_root kw d = Inr root_obj \<and>
      (kw_headline kw = Given h \<and> kw_text kw \<noteq> Absent \<or>
       kw_headline kw = Absent \<and> kw_text kw = Given h) \<and>
      mid m = new_message_id d \<and>
      root m = map_option mid root_obj \<and>
      parent m = map_option mid (kw_parent kw) \<and>
      sender m = uid (kw_sender kw) \<and>
      headline m = take 80 h \<and>
      mtext m = (case kw_text kw of Given t \<Rightarrow> Some t | _ \<Rightarrow> None) \<and>
      \<not> (\<exists>mm \<in> set (memos d).
            memo_user mm = uid (kw_sender kw) \<and> memo_message mm = new_message_id d) \<and>
      d' = d\<lparr>messages := messages d @ [m],
             memos := memos d @
               [\<lparr>memo_user = uid (kw_sender kw), memo_message = mid m, status = SEEN\<rparr>]\<rparr>"
  using assms unfolding create_def Let_def
  by (auto split: sum.splits arg.splits option.splits if_splits simp: MAX_TITLE_LENGTH_def)

lemma create_Inl:
  "fst (create kw now d) = Inl e \<longleftrightarrow>
     message_root kw d = Inl e \<or>
     (\<exists>r. message_root kw d = Inr r) \<and>
     (kw_text kw = Absent \<and> e = KeyError \<or>
      kw_text kw \<noteq> Absent \<and>
        (kw_headline kw = PyNone \<or> kw_headline kw = Absent \<and> kw_text kw = PyNone) \<and>
        e = TypeError \<or>
      kw_text kw \<noteq> Absent \<and>
        \<not> (kw_headline kw = PyNone \<or> kw_headline kw = Absent \<and> kw_text kw = PyNone) \<and>
        (\<exists>mm \<in> set (memos d).
           memo_user mm = uid (kw_sender kw) \<and> memo_message mm = new_message_id d) \<and>
        e = IntegrityError)"
  unfolding create_def Let_def
  by (cases "message_root kw d"; cases "kw_text kw"; cases "kw_headline kw") auto

lemma message_root_Inl: "message_root kw d = Inl e \<Longrightarrow> e = DoesNotExist"
  unfolding message_root_def by (auto split: option.splits)

lemma update_senders_info_Inl:
  "fst (update_senders_info self d) = Inl e \<longleftrightarrow>
     get_user (sender self) d = None \<and> e = DoesNotExist"
  unfolding update_senders_info_def Let_def
  by (auto split: option.splits)

text \<open>
  Claim C8. The headline of a created message is the first 80 characters of the
  headline that was passed, or of the text when no headline was passed; the message
  is the row appended to the message table. A text of 100 characters gives a headline
  of 80.
\<close>

theorem create_headline:
  assumes "create kw now d = (Inr m, d')"
  shows "\<exists>h. (kw_headline kw = Given h \<or> kw_headline kw = Absent \<and> kw_text kw = Given h) \<and>
           headline m = take 80 h \<and>
           messages d' = messages d @ [m] \<and>
           (length h = 100 \<longrightarrow> length (headline m) = 80)"
proof -
  from create_Inr [OF assms] obtain root_obj h where
    h: "kw_headline kw = Given h \<and> kw_text kw \<noteq> Absent \<or>
        kw_headline kw = Absent \<and> kw_text kw = Given h"
    and hl: "headline m = take 80 h"
    and d': "d' = d\<lparr>messages := messages d @ [m],
             memos := memos d @
               [\<lparr>memo_user = uid (kw_sender kw), memo_message = mid m, status = SEEN\<rparr>]\<rparr>"
    by blast
  have "messages d' = messages d @ [m]"
    by (simp add: d')
  moreover have "length h = 100 \<longrightarrow> length (headline m) = 80"
    by (simp add: hl)
  ultimately show ?thesis using h hl by blast
qed

lemma ex_create_long:
  "create (ex_kwargs (replicate 80 CHR ''a'' @ replicate 20 CHR ''b'')) 5 ex_db0 =
     (Inr \<lparr>mid = 1, message_type = 0, sender = 1, senders_info = [], root = None,
           parent = None, headline = replicate 80 CHR ''a'',
           mtext = Some (replicate 80 CHR ''a'' @ replicate 20 CHR ''b''),
           html = Some (replicate 80 CHR ''a'' @ replicate 20 CHR ''b''),
           sent_at = 5, last_active_at = 5, active_until = None\<rparr>,
      ex_db0\<lparr>messages :=
               [\<lparr>mid = 1, message_type = 0, sender = 1, senders_info = [], root = None,
                 parent = None, headline = replicate 80 CHR ''a'',
                 mtext = Some (replicate 80 CHR ''a'' @ replicate 20 CHR ''b''),
                 html = Some (replicate 80 CHR ''a'' @ replicate 20 CHR ''b''),
                 sent_at = 5, last_active_at = 5, active_until = None\<rparr>],
             memos := [\<lparr>memo_user = 1, memo_message = 1, status = 0\<rparr>]\<rparr>)"
  by (simp add: create_def Let_def message_root_def new_message_id_def ex_defs const_defs)

text \<open>A text of 80 letters a and 20 letters b gives the headline of the 80 letters a.\<close>

theorem create_headline_witness:
  "length (replicate 80 CHR ''a'' @ replicate 20 CHR ''b'') = 100 \<and>
   headline (projr (fst (create (ex_kwargs (replicate 80 CHR ''a'' @ replicate 20 CHR ''b''))
                            5 ex_db0))) = replicate 80 CHR ''a'' \<and>
   length (headline (projr (fst (create
        (ex_kwargs (replicate 80 CHR ''a'' @ replicate 20 CHR ''b'')) 5 ex_db0)))) = 80"
proof -
  from create_headline [OF ex_create_long] obtain h where
    h: "kw_headline (ex_kwargs (replicate 80 CHR ''a'' @ replicate 20 CHR ''b'')) = Given h \<or>
        kw_headline (ex_kwargs (replicate 80 CHR ''a'' @ replicate 20 CHR ''b'')) = Absent \<and>
        kw_text (ex_kwargs (replicate 80 CHR ''a'' @ replicate 20 CHR ''b'')) = Given h"
    and len: "length h = 100 \<longrightarrow>
        length (headline \<lparr>mid = 1, message_type = 0, sender = 1, senders_info = [],
           root = None, parent = None, headline = replicate 80 CHR ''a'',
           mtext = Some (replicate 80 CHR ''a'' @ replicate 20 CHR ''b''),
           html = Some (replicate 80 CHR ''a'' @ replicate 20 CHR ''b''),
           sent_at = 5, last_active_at = 5, active_until = None\<rparr>) = 80"
    by blast
  from h have "h = replicate 80 CHR ''a'' @ replicate 20 CHR ''b''"
    by (simp add: ex_kwargs_def)
  then have "length h = 100" by simp
  with len show ?thesis
    by (simp add: ex_create_long)
qed

text \<open>
  Claim C7, as the claim states it, fails: an empty text is accepted. The call returns
  the new message, with empty text and empty headline.
\<close>

theorem create_empty_text_counterexample:
  "fst (create (ex_kwargs []) 5 ex_db0) =
     Inr \<lparr>mid = 1, message_type = 0, sender = 1, senders_info = [], root = None,
          parent = None, headline = [], mtext = Some [], html = Some [],
          sent_at = 5, last_active_at = 5, active_until = None\<rparr>"
  by (simp add: create_def Let_def message_root_def new_message_id_def ex_defs const_defs)

text \<open>
  Claim C7, amended. \<open>create\<close> raises in these cases and in no other: the root of the
  parent cannot be loaded; the text argument is missing (KeyError); the headline, or
  the text where no headline is passed, is \<^verbatim>\<open>None\<close> (TypeError); the store holds a memo
  of the sender for the new key already (IntegrityError). None of them depends on what
  the text holds or on its length. \<open>update_senders_info\<close> raises only when the row of
  the sender is missing.
\<close>

theorem create_errors:
  "(fst (create kw now d) = Inl e \<longleftrightarrow>
     message_root kw d = Inl e \<or>
     (\<exists>r. message_root kw d = Inr r) \<and>
     (kw_text kw = Absent \<and> e = KeyError \<or>
      kw_text kw \<noteq> Absent \<and>
        (kw_headline kw = PyNone \<or> kw_headline kw = Absent \<and> kw_text kw = PyNone) \<and>
        e = TypeError \<or>
      kw_text kw \<noteq> Absent \<and>
        \<not> (kw_headline kw = PyNone \<or> kw_headline kw = Absent \<and> kw_text kw = PyNone) \<and>
        (\<exists>mm \<in> set (memos d).
           memo_user mm = uid (kw_sender kw) \<and> memo_message mm = new_message_id d) \<and>
        e = IntegrityError)) \<and>
   (fst (update_senders_info self d) = Inl e \<longleftrightarrow>
      get_user (sender self) d = None \<and> e = DoesNotExist)"
  using create_Inl update_senders_info_Inl by blast

text \<open>
  Without the text argument the call raises KeyError; with a text and no memo row in
  the store it raises nothing, whatever the text.
\<close>

theorem create_errors_witness:
  "fst (create ((ex_kwargs [])\<lparr>kw_text := Absent\<rparr>) 5 ex_db0) = Inl KeyError \<and>
   fst (create (ex_kwargs (replicate 200 CHR ''a'')) 5 ex_db0) \<noteq> Inl IntegrityError \<and>
   fst (create (ex_kwargs (replicate 200 CHR ''a'')) 5 ex_db0) \<noteq> Inl TypeError \<and>
   fst (create (ex_kwargs (replicate 200 CHR ''a'')) 5 ex_db0) \<noteq> Inl KeyError"
proof -
  have r: "message_root ((ex_kwargs [])\<lparr>kw_text := Absent\<rparr>) ex_db0 = Inr None"
    by (simp add: message_root_def ex_kwargs_def)
  have r': "message_root (ex_kwargs (replicate 200 CHR ''a'')) ex_db0 = Inr None"
    by (simp add: message_root_def ex_kwargs_def)
  have t: "kw_text (ex_kwargs (replicate 200 CHR ''a'')) = Given (replicate 200 CHR ''a'')"
    "kw_headline (ex_kwargs (replicate 200 CHR ''a'')) = Absent"
    "memos ex_db0 = []"
    by (simp_all add: ex_kwargs_def ex_db0_def)
  have "fst (create ((ex_kwargs [])\<lparr>kw_text := Absent\<rparr>) 5 ex_db0) = Inl KeyError"
    using create_errors [of "(ex_kwargs [])\<lparr>kw_text := Absent\<rparr>" 5 ex_db0 KeyError] r
    by simp
  moreover have "fst (create (ex_kwargs (replicate 200 CHR ''a'')) 5 ex_db0) \<noteq> Inl IntegrityError"
    using create_errors [of "ex_kwargs (replicate 200 CHR ''a'')" 5 ex_db0 IntegrityError] r' t
    by simp
  moreover have "fst (create (ex_kwargs (replicate 200 CHR ''a'')) 5 ex_db0) \<noteq> Inl TypeError"
    using create_errors [of "ex_kwargs (replicate 200 CHR ''a'')" 5 ex_db0 TypeError] r' t
    by simp
  moreover have "fst (create (ex_kwargs (replicate 200 CHR ''a'')) 5 ex_db0) \<noteq> Inl KeyError"
    using create_errors [of "ex_kwargs (replicate 200 CHR ''a'')" 5 ex_db0 KeyError] r' t
    by simp
  ultimately show ?thesis by blast
qed

section \<open>What each operation writes\<close>

lemma fold_max_ge: "x \<in> set xs \<Longrightarrow> x \<le> fold max xs (a::nat)"
proof -
  assume x: "x \<in> set xs"
  have "fold max xs a = Max (set (a # xs))"
    by (simp only: Max.set_eq_fold)
  moreover have "x \<le> Max (set (a # xs))"
    using x by (intro Max_ge) auto
  ultimately show ?thesis by simp
qed

lemma new_message_id_fresh: "m \<in> set (messages d) \<Longrightarrow> mid m < new_message_id d"
proof -
  assume "m \<in> set (messages d)"
  then have "mid m \<in> set (map mid (messages d))" by simp
  from fold_max_ge [OF this] show ?thesis
    by (simp add: new_message_id_def less_Suc_eq_le)
qed

lemma record_send_tables:
  assumes "record_send g s d = (res, d')"
  shows "users d' = users d \<and> groups d' = groups d \<and> user_groups d' = user_groups d \<and>
         messages d' = messages d \<and> message_recipients d' = message_recipients d \<and>
         memos d' = memos d"
  using assms unfolding record_send_def
  by (auto split: list.splits)

lemma update_sender_lists_tables:
  assumes "update_sender_lists gs s d = (res, d')"
  shows "users d' = users d \<and> groups d' = groups d \<and> user_groups d' = user_groups d \<and>
         messages d' = messages d \<and> message_recipients d' = message_recipients d \<and>
         memos d' = memos d"
  using assms
proof (induction gs arbitrary: d)
  case Nil
  then show ?case by simp
next
  case (Cons g gs)
  obtain r1 d1 where r: "record_send g s d = (r1, d1)"
    by (cases "record_send g s d")
  note t = record_send_tables [OF r]
  show ?case
  proof (cases r1)
    case (Inl e)
    with Cons.prems r have "d' = d1" by simp
    with t show ?thesis by simp
  next
    case (Inr u)
    with Cons.prems r have "update_sender_lists gs s d1 = (res, d')" by simp
    from Cons.IH [OF this] t show ?thesis by simp
  qed
qed

lemma set_fold_m2m_add:
  "set (fold (\<lambda>g rs. m2m_add (f g) rs) gs rs0) = set rs0 \<union> f ` set gs"
  by (induction gs arbitrary: rs0) (auto simp: m2m_add_def)

lemma add_recipients_tables:
  assumes "add_recipients self rs d = (res, d')"
  shows "users d' = users d \<and> groups d' = groups d \<and> user_groups d' = user_groups d \<and>
         messages d' = messages d \<and> memos d' = memos d \<and>
         set (message_recipients d') =
           set (message_recipients d) \<union> (\<lambda>g. (mid self, gid g)) ` set rs"
proof -
  from assms have u: "update_sender_lists (map gid rs) (sender self)
       (d\<lparr>message_recipients :=
             fold (\<lambda>g rs. m2m_add (mid self, gid g) rs) rs (message_recipients d)\<rparr>) =
       (res, d')"
    by (simp add: add_recipients_def)
  from update_sender_lists_tables [OF u] show ?thesis
    by (simp add: set_fold_m2m_add)
qed

lemma create_tables:
  assumes "create kw now d = (res, d')"
  shows "users d' = users d \<and> groups d' = groups d \<and> user_groups d' = user_groups d \<and>
         message_recipients d' = message_recipients d \<and> sender_lists d' = sender_lists d"
  using assms unfolding create_def Let_def
  by (auto split: sum.splits arg.splits option.splits if_splits)

lemma update_senders_info_tables:
  assumes "update_senders_info self d = (res, d')"
  shows "users d' = users d \<and> groups d' = groups d \<and> user_groups d' = user_groups d \<and>
         message_recipients d' = message_recipients d \<and> sender_lists d' = sender_lists d \<and>
         memos d' = memos d"
  using assms unfolding update_senders_info_def Let_def save_def
  by (auto split: option.splits)

lemma get_personal_group_in_groups:
  assumes "get_personal_group u d = Inr sg"
  shows "sg \<in> set (groups d)"
proof -
  from assms have "filter (\<lambda>g. gname g = GROUP_NAME_TPL (uid u)) (groups d) = [sg]"
    unfolding get_personal_group_def get_personal_group_by_user_id_def
    by (auto split: list.splits)
  then have "sg \<in> set (filter (\<lambda>g. gname g = GROUP_NAME_TPL (uid u)) (groups d))"
    by simp
  then show ?thesis by simp
qed

text \<open>The steps of a \<open>create_response\<close> that returns.\<close>

lemma create_response_Inr:
  assumes "create_response s t (Some p) t_sent now d = (Inr msg, d')"
  shows "\<exists>d1 u sg.
      create (response_kwargs s t (Some p)) t_sent d = (Inr msg, d1) \<and>
      get_user (sender p) d = Some u \<and>
      get_personal_group u d = Inr sg \<and>
      groups d' = groups d \<and>
      set (message_recipients d') =
        set (message_recipients d) \<union>
        (\<lambda>g. (mid msg, gid g)) ` (set (recipients_all p d) \<union> {sg}) \<union>
        {(mid p, gid sg)}"
proof -
  let ?K = "response_kwargs s t (Some p)"
  obtain r1 d1 where c: "create ?K t_sent d = (r1, d1)"
    by (cases "create ?K t_sent d")
  from assms c obtain m1 where r1: "r1 = Inr m1"
    unfolding create_response_def by (cases r1) auto
  note ct = create_tables [OF c]
  have gu: "get_user (sender p) d1 = get_user (sender p) d"
    using ct by (simp add: get_user_def)
  have ra: "recipients_all p d1 = recipients_all p d"
    using ct by (simp add: recipients_all_def)
  from assms c r1 obtain u where u: "get_user (sender p) d1 = Some u"
    unfolding create_response_def Let_def by (cases "get_user (sender p) d1") auto
  have gp: "get_personal_group u d1 = get_personal_group u d"
    using ct by (simp add: get_personal_group_def get_personal_group_by_user_id_def)
  from assms c r1 u obtain sg where sg: "get_personal_group u d1 = Inr sg"
    unfolding create_response_def Let_def by (cases "get_personal_group u d1") auto
  let ?rs = "m2m_add sg (remdups (recipients_all p d1))"
  obtain r2 d2 where a2: "add_recipients m1 ?rs d1 = (r2, d2)"
    by (cases "add_recipients m1 ?rs d1")
  from assms c r1 u sg a2 obtain x2 where r2: "r2 = Inr x2"
    unfolding create_response_def Let_def by (cases r2) auto
  obtain r3 d3 where a3: "add_recipients p [sg] d2 = (r3, d3)"
    by (cases "add_recipients p [sg] d2")
  from assms c r1 u sg a2 r2 a3 obtain x3 where r3: "r3 = Inr x3"
    unfolding create_response_def Let_def by (cases r3) auto
  from assms c r1 u sg a2 r2 a3 r3 obtain r where mr: "message_root ?K d = Inr (Some r)"
    unfolding create_response_def Let_def
    by (cases "message_root ?K d") (auto split: option.splits)
  obtain r4 d4 where a4: "update_senders_info (r\<lparr>last_active_at := now\<rparr>) d3 = (r4, d4)"
    by (cases "update_senders_info (r\<lparr>last_active_at := now\<rparr>) d3")
  from assms c r1 u sg a2 r2 a3 r3 mr a4 obtain r' where r4: "r4 = Inr r'"
    unfolding create_response_def Let_def by (cases r4) auto
  from assms c r1 u sg a2 r2 a3 r3 mr a4 r4 have fin: "msg = m1" "d' = unarchive r' d4"
    unfolding create_response_def Let_def by auto
  note t2 = add_recipients_tables [OF a2]
  note t3 = add_recipients_tables [OF a3]
  note t4 = update_senders_info_tables [OF a4]
  have g: "groups d' = groups d"
    using fin ct t2 t3 t4 by (simp add: unarchive_def)
  have "message_recipients d' = message_recipients d3"
    using fin t4 by (simp add: unarchive_def)
  then have "set (message_recipients d') =
      set (message_recipients d1) \<union> (\<lambda>g. (mid m1, gid g)) ` set ?rs \<union>
      (\<lambda>g. (mid p, gid g)) ` set [sg]"
    using t2 t3 by simp
  moreover have "set ?rs = set (recipients_all p d) \<union> {sg}"
    by (auto simp: m2m_add_def ra)
  ultimately have "set (message_recipients d') =
        set (message_recipients d) \<union>
        (\<lambda>g. (mid msg, gid g)) ` (set (recipients_all p d) \<union> {sg}) \<union>
        {(mid p, gid sg)}"
    using ct fin by simp
  then show ?thesis
    using c r1 fin u sg gu gp g by auto
qed

section \<open>Answering a thread\<close>

lemma ex_db1_eval:
  "create_thread user_a [group_all] (Some ''hello'') 5 ex_db0 =
     (Inr ex_msg1,
      ex_db0\<lparr>messages := [ex_msg1], message_recipients := [(1, 4)],
             memos := [\<lparr>memo_user = 1, memo_message = 1, status = SEEN\<rparr>],
             sender_lists := [\<lparr>recipient = 4, senders = [1]\<rparr>]\<rparr>)"
  by code_simp

lemma ex_db2_eval:
  "create_response user_b (Some ''re'') (Some ex_msg1) 6 7 ex_db1 =
     (Inr ex_msg2,
      ex_db0\<lparr>messages := [ex_msg1\<lparr>last_active_at := 7\<rparr>, ex_msg2],
             message_recipients := [(1, 4), (2, 4), (2, 1), (1, 1)],
             memos := [\<lparr>memo_user = 1, memo_message = 1, status = SEEN\<rparr>,
                       \<lparr>memo_user = 2, memo_message = 2, status = SEEN\<rparr>],
             sender_lists := [\<lparr>recipient = 4, senders = [1, 2]\<rparr>,
                              \<lparr>recipient = 1, senders = [2, 1]\<rparr>]\<rparr>)"
  by code_simp

text \<open>
  Claim C3, evaluated. A, named \<open>A\<close>, has sent a thread to the group of everyone; B,
  named \<open>B\<close>, answers it. \<open>update_senders_info\<close> runs on the root message and reads the
  name of the sender of that root, which is A: the \<open>senders_info\<close> of the root is
  \<open>A\<close> after the answer as before it, and the name of B is nowhere in it.
\<close>

theorem response_senders_info_evaluation:
  "fst (create_response user_b (Some ''re'') (Some ex_msg1) 6 7 ex_db1) = Inr ex_msg2 \<and>
   root ex_msg2 = Some (mid ex_msg1) \<and>
   senders_info ex_msg1 = ''A'' \<and>
   map senders_info (messages ex_db1) = [''A''] \<and>
   map mid (messages ex_db2) = [1, 2] \<and>
   map senders_info (messages ex_db2) = [''A'', []] \<and>
   map last_active_at (messages ex_db2) = [7, 6]"
  by code_simp

text \<open>
  Claim C2, as the claim states it, fails. B answers the thread that A has sent to the
  group of everyone: the recipients of the answer and of the thread are then the group
  of everyone and the personal group of A, the sender of the parent; the personal
  group of B, who answers, is in neither.
\<close>

theorem response_recipients_counterexample:
  "fst (create_response user_b (Some ''re'') (Some ex_msg1) 6 7 ex_db1) = Inr ex_msg2 \<and>
   get_personal_group user_b ex_db1 = Inr group_b \<and>
   recipients_all ex_msg1 ex_db1 = [group_all] \<and>
   recipients_all ex_msg2 ex_db2 = [group_a, group_all] \<and>
   recipients_all ex_msg1 ex_db2 = [group_a, group_all] \<and>
   set (recipients_all ex_msg2 ex_db2) \<noteq> set (recipients_all ex_msg1 ex_db1) \<union> {group_b}"
  by code_simp

text \<open>
  Claim C2, amended. In a store where the group keys are distinct and every recipient
  row belongs to a stored message, let \<open>create_response\<close> to a stored parent return.
  Then the row of the parent's sender and the personal group of that user exist, the
  recipients of the new message are the recipients the parent had, together with
  that personal group, and the recipients of the parent are now the same set.
\<close>

theorem create_response_recipients:
  assumes groups_distinct: "distinct (map gid (groups d))"
    and rows_stored: "\<forall>(i, g) \<in> set (message_recipients d). \<exists>m \<in> set (messages d). mid m = i"
    and stored: "p \<in> set (messages d)"
    and returns: "create_response s t (Some p) t_sent now d = (Inr msg, d')"
  shows "\<exists>u sg. get_user (sender p) d = Some u \<and> get_personal_group u d = Inr sg \<and>
     set (recipients_all msg d') = set (recipients_all p d) \<union> {sg} \<and>
     set (recipients_all p d') = set (recipients_all p d) \<union> {sg}"
proof -
  from create_response_Inr [OF returns] obtain d1 u sg where
    c: "create (response_kwargs s t (Some p)) t_sent d = (Inr msg, d1)"
    and u: "get_user (sender p) d = Some u"
    and sg: "get_personal_group u d = Inr sg"
    and g: "groups d' = groups d"
    and mr: "set (message_recipients d') =
        set (message_recipients d) \<union>
        (\<lambda>g. (mid msg, gid g)) ` (set (recipients_all p d) \<union> {sg}) \<union>
        {(mid p, gid sg)}"
    by blast
  from create_Inr [OF c] have new: "mid msg = new_message_id d" by blast
  have p_old: "mid p < mid msg"
    using new_message_id_fresh [OF stored] new by simp
  have no_rows: "(mid msg, k) \<notin> set (message_recipients d)" for k
  proof
    assume "(mid msg, k) \<in> set (message_recipients d)"
    with rows_stored obtain m where "m \<in> set (messages d)" "mid m = mid msg" by auto
    with new_message_id_fresh [of m d] new show False by simp
  qed
  have inj: "inj_on gid (set (groups d))"
    using groups_distinct by (simp add: distinct_map)
  have sg_in: "sg \<in> set (groups d)"
    by (rule get_personal_group_in_groups [OF sg])
  have old_in: "set (recipients_all p d) \<subseteq> set (groups d)"
    by (auto simp: recipients_all_def)
  have new_rows: "(mid msg, gid x) \<in> set (message_recipients d') \<longleftrightarrow>
      x \<in> set (recipients_all p d) \<union> {sg}" if x: "x \<in> set (groups d)" for x
  proof
    assume "(mid msg, gid x) \<in> set (message_recipients d')"
    with mr no_rows p_old obtain y where
      y: "y \<in> set (recipients_all p d) \<union> {sg}" "gid x = gid y" by auto
    from y(1) sg_in old_in have "y \<in> set (groups d)" by auto
    with inj x y(2) have "x = y" by (auto dest: inj_onD)
    with y(1) show "x \<in> set (recipients_all p d) \<union> {sg}" by simp
  next
    assume "x \<in> set (recipients_all p d) \<union> {sg}"
    then show "(mid msg, gid x) \<in> set (message_recipients d')"
      using mr by blast
  qed
  have parent_rows: "(mid p, gid x) \<in> set (message_recipients d') \<longleftrightarrow>
      x \<in> set (recipients_all p d) \<union> {sg}" if x: "x \<in> set (groups d)" for x
  proof
    assume "(mid p, gid x) \<in> set (message_recipients d')"
    with mr p_old have "(mid p, gid x) \<in> set (message_recipients d) \<or> gid x = gid sg"
      by auto
    then show "x \<in> set (recipients_all p d) \<union> {sg}"
    proof
      assume "(mid p, gid x) \<in> set (message_recipients d)"
      with x show ?thesis by (simp add: recipients_all_def)
    next
      assume "gid x = gid sg"
      with inj x sg_in have "x = sg" by (auto dest: inj_onD)
      then show ?thesis by simp
    qed
  next
    assume "x \<in> set (recipients_all p d) \<union> {sg}"
    then show "(mid p, gid x) \<in> set (message_recipients d')"
      using mr by (auto simp: recipients_all_def)
  qed
  have "set (recipients_all msg d') = set (recipients_all p d) \<union> {sg}"
    using new_rows sg_in old_in by (auto simp: recipients_all_def [of msg d'] g)
  moreover have "set (recipients_all p d') = set (recipients_all p d) \<union> {sg}"
    using parent_rows sg_in old_in by (auto simp: recipients_all_def [of p d'] g)
  ultimately show ?thesis using u sg by blast
qed

lemma ex_db1_wellformed:
  "distinct (map gid (groups ex_db1)) \<and>
   (\<forall>(i, g) \<in> set (message_recipients ex_db1). \<exists>m \<in> set (messages ex_db1). mid m = i) \<and>
   ex_msg1 \<in> set (messages ex_db1)"
  by code_simp

lemma ex_db1_parent_sender:
  "get_user (sender ex_msg1) ex_db1 = Some user_a \<and>
   get_personal_group user_a ex_db1 = Inr group_a"
  by code_simp

text \<open>
  In the example the answer of B and the thread of A both get the personal group of A,
  the sender of the thread, next to the recipients the thread had.
\<close>

theorem create_response_recipients_witness:
  "set (recipients_all ex_msg2 ex_db2) = set (recipients_all ex_msg1 ex_db1) \<union> {group_a} \<and>
   set (recipients_all ex_msg1 ex_db2) = set (recipients_all ex_msg1 ex_db1) \<union> {group_a}"
proof -
  have d2: "create_response user_b (Some ''re'') (Some ex_msg1) 6 7 ex_db1 = (Inr ex_msg2, ex_db2)"
    by (simp add: ex_db2_def ex_db2_eval)
  from ex_db1_wellformed have w1: "distinct (map gid (groups ex_db1))"
    and w2: "\<forall>(i, g) \<in> set (message_recipients ex_db1).
               \<exists>m \<in> set (messages ex_db1). mid m = i"
    and w3: "ex_msg1 \<in> set (messages ex_db1)"
    by blast+
  from create_response_recipients [OF w1 w2 w3 d2] obtain u sg where
    u: "get_user (sender ex_msg1) ex_db1 = Some u"
    and sg: "get_personal_group u ex_db1 = Inr sg"
    and r: "set (recipients_all ex_msg2 ex_db2) = set (recipients_all ex_msg1 ex_db1) \<union> {sg}"
      "set (recipients_all ex_msg1 ex_db2) = set (recipients_all ex_msg1 ex_db1) \<union> {sg}"
    by blast
  from u ex_db1_parent_sender have "u = user_a" by simp
  with sg ex_db1_parent_sender have "sg = group_a" by simp
  with r show ?thesis by simp
qed

section \<open>The root of a message\<close>

lemma get_message_Some:
  assumes "get_message i d = Some m"
  shows "mid m = i \<and> m \<in> set (messages d)"
  using assms unfolding get_message_def
  by (auto simp: find_Some_iff)

lemma get_message_stored:
  assumes "distinct (map mid (messages d))" and "m \<in> set (messages d)"
  shows "get_message (mid m) d = Some m"
proof -
  have inj: "inj_on mid (set (messages d))"
    using assms(1) by (simp add: distinct_map)
  obtain x where x: "find (\<lambda>y. mid y = mid m) (messages d) = Some x"
    using assms(2) by (cases "find (\<lambda>y. mid y = mid m) (messages d)") (auto simp: find_None_iff)
  then have "mid x = mid m" "x \<in> set (messages d)"
    by (auto simp: find_Some_iff)
  with inj assms(2) have "x = m" by (auto dest: inj_onD)
  with x show ?thesis by (simp add: get_message_def)
qed

lemma topmost_unique:
  assumes "topmost d i r" and "topmost d i r'"
  shows "r' = r"
  using assms
proof (induction arbitrary: r' rule: topmost.induct)
  case (top i m)
  from top.prems show ?case
  proof (cases rule: topmost.cases)
    case (top m')
    then show ?thesis by simp
  next
    case (up m' p)
    with top.hyps show ?thesis by simp
  qed
next
  case (up i m p r)
  from up.prems show ?case
  proof (cases rule: topmost.cases)
    case (top m')
    with up.hyps show ?thesis by simp
  next
    case (up m' p')
    with up.hyps have "p' = p" by simp
    with up.IH [of r'] \<open>topmost d p' r'\<close> show ?thesis by simp
  qed
qed

lemma topmost_end:
  assumes "topmost d i r"
  shows "\<exists>rm. get_message r d = Some rm \<and> parent rm = None"
  using assms by (induction rule: topmost.induct) auto

text \<open>
  Following the parents gives the same result in a store whose messages have the same
  keys and parents.
\<close>

lemma topmost_mono:
  assumes "topmost d i r"
    and "\<And>j m. get_message j d = Some m \<Longrightarrow>
           \<exists>m'. get_message j d' = Some m' \<and> parent m' = parent m"
  shows "topmost d' i r"
  using assms(1)
proof (induction rule: topmost.induct)
  case (top i m)
  from assms(2) [OF top.hyps(1)] obtain m' where
    "get_message i d' = Some m'" "parent m' = parent m" by blast
  with top.hyps(2) show ?case by (auto intro: topmost.top)
next
  case (up i m p r)
  from assms(2) [OF up.hyps(1)] obtain m' where
    "get_message i d' = Some m'" "parent m' = parent m" by blast
  with up.hyps(2) up.IH show ?case by (auto intro: topmost.up)
qed

lemma find_same_shape:
  assumes "map (\<lambda>m. (mid m, parent m, root m)) ys = map (\<lambda>m. (mid m, parent m, root m)) xs"
    and "find (\<lambda>m. mid m = j) xs = Some m"
  shows "\<exists>m'. find (\<lambda>m. mid m = j) ys = Some m' \<and> parent m' = parent m \<and> root m' = root m"
  using assms
proof (induction xs arbitrary: ys)
  case Nil
  then show ?case by simp
next
  case (Cons x xs)
  from Cons.prems(1) obtain y ys' where ys: "ys = y # ys'"
    and y: "mid y = mid x" "parent y = parent x" "root y = root x"
    and rest: "map (\<lambda>m. (mid m, parent m, root m)) ys' =
               map (\<lambda>m. (mid m, parent m, root m)) xs"
    by (cases ys) auto
  show ?case
  proof (cases "mid x = j")
    case True
    with Cons.prems(2) have "m = x" by simp
    with True ys y show ?thesis by simp
  next
    case False
    with Cons.prems(2) have "find (\<lambda>m. mid m = j) xs = Some m" by simp
    from Cons.IH [OF rest this] False ys y show ?thesis by simp
  qed
qed

text \<open>
  The invariant speaks of the keys, parents and roots only: it passes to every store
  whose message table agrees on them, row by row.
\<close>

lemma root_invariant_same_shape:
  assumes inv: "root_invariant d"
    and shape: "map (\<lambda>m. (mid m, parent m, root m)) (messages d') =
                map (\<lambda>m. (mid m, parent m, root m)) (messages d)"
  shows "root_invariant d'"
proof -
  have "map fst (map (\<lambda>m. (mid m, parent m, root m)) (messages d')) =
        map fst (map (\<lambda>m. (mid m, parent m, root m)) (messages d))"
    using shape by simp
  then have mids: "map mid (messages d') = map mid (messages d)"
    by (simp add: comp_def)
  have dist: "distinct (map mid (messages d'))"
    using inv mids by (simp add: root_invariant_def)
  have step: "\<And>j m. get_message j d = Some m \<Longrightarrow>
           \<exists>m'. get_message j d' = Some m' \<and> parent m' = parent m"
    using find_same_shape [OF shape] unfolding get_message_def by blast
  have "(parent m' = None \<and> root m' = None) \<or>
        (\<exists>p r. parent m' = Some p \<and> root m' = Some r \<and> topmost d' (mid m') r)"
    if m': "m' \<in> set (messages d')" for m'
  proof -
    from m' have "(mid m', parent m', root m') \<in>
        set (map (\<lambda>m. (mid m, parent m, root m)) (messages d'))" by force
    with shape have "(mid m', parent m', root m') \<in>
        set (map (\<lambda>m. (mid m, parent m, root m)) (messages d))" by simp
    then obtain m where m: "m \<in> set (messages d)" "mid m = mid m'"
      "parent m = parent m'" "root m = root m'" by auto
    from inv m(1) have "(parent m = None \<and> root m = None) \<or>
        (\<exists>p r. parent m = Some p \<and> root m = Some r \<and> topmost d (mid m) r)"
      by (simp add: root_invariant_def)
    then show ?thesis
    proof
      assume "parent m = None \<and> root m = None"
      with m show ?thesis by simp
    next
      assume "\<exists>p r. parent m = Some p \<and> root m = Some r \<and> topmost d (mid m) r"
      then obtain p r where pr: "parent m = Some p" "root m = Some r" "topmost d (mid m) r"
        by blast
      from topmost_mono [OF pr(3) step] have "topmost d' (mid m) r" .
      with pr m show ?thesis by simp
    qed
  qed
  with dist show ?thesis by (simp add: root_invariant_def)
qed

lemma find_append_Some:
  "find P xs = Some x \<Longrightarrow> find P (xs @ ys) = Some x"
  by (induction xs) (auto split: if_splits)

text \<open>Appending a message with the next key, a stored parent and the root of the rule.\<close>

lemma root_invariant_append:
  assumes inv: "root_invariant d"
    and app: "messages d' = messages d @ [m]"
    and key: "mid m = new_message_id d"
    and rule: "(parent m = None \<and> root m = None) \<or>
               (\<exists>p r. p \<in> set (messages d) \<and> parent m = Some (mid p) \<and> root m = Some r \<and>
                      (root p = None \<and> r = mid p \<or> root p = Some r))"
  shows "root_invariant d'"
proof -
  have dist_d: "distinct (map mid (messages d))"
    using inv by (simp add: root_invariant_def)
  have fresh: "mid m \<notin> mid ` set (messages d)"
    using new_message_id_fresh [of _ d] key by force
  have dist: "distinct (map mid (messages d'))"
    using dist_d fresh by (simp add: app)
  have keep: "\<And>j x. get_message j d = Some x \<Longrightarrow> get_message j d' = Some x"
    by (simp add: get_message_def app find_append_Some)
  have step: "\<And>j x. get_message j d = Some x \<Longrightarrow>
       \<exists>x'. get_message j d' = Some x' \<and> parent x' = parent x"
    using keep by blast
  have old: "(parent x = None \<and> root x = None) \<or>
        (\<exists>p r. parent x = Some p \<and> root x = Some r \<and> topmost d' (mid x) r)"
    if x: "x \<in> set (messages d)" for x
  proof -
    from inv x have "(parent x = None \<and> root x = None) \<or>
        (\<exists>p r. parent x = Some p \<and> root x = Some r \<and> topmost d (mid x) r)"
      by (simp add: root_invariant_def)
    then show ?thesis
      using topmost_mono [OF _ step] by blast
  qed
  have m_stored: "get_message (mid m) d' = Some m"
    using get_message_stored [OF dist, of m] by (simp add: app)
  have new: "(parent m = None \<and> root m = None) \<or>
        (\<exists>p r. parent m = Some p \<and> root m = Some r \<and> topmost d' (mid m) r)"
    using rule
  proof
    assume "parent m = None \<and> root m = None"
    then show ?thesis by simp
  next
    assume "\<exists>p r. p \<in> set (messages d) \<and> parent m = Some (mid p) \<and> root m = Some r \<and>
                      (root p = None \<and> r = mid p \<or> root p = Some r)"
    then obtain p r where p: "p \<in> set (messages d)" "parent m = Some (mid p)"
      "root m = Some r" "root p = None \<and> r = mid p \<or> root p = Some r" by blast
    have p_stored: "get_message (mid p) d' = Some p"
      using keep [OF get_message_stored [OF dist_d p(1)]] .
    from inv p(1) have p_inv: "(parent p = None \<and> root p = None) \<or>
        (\<exists>q r'. parent p = Some q \<and> root p = Some r' \<and> topmost d (mid p) r')"
      by (simp add: root_invariant_def)
    have "topmost d' (mid p) r"
      using p(4)
    proof
      assume a: "root p = None \<and> r = mid p"
      with p_inv have "parent p = None" by auto
      with p_stored a show ?thesis by (auto intro: topmost.top)
    next
      assume a: "root p = Some r"
      with p_inv have "topmost d (mid p) r" by auto
      from topmost_mono [OF this step] show ?thesis .
    qed
    with m_stored p(2) have "topmost d' (mid m) r"
      by (auto intro: topmost.up)
    with p show ?thesis by simp
  qed
  have "\<forall>x \<in> set (messages d').
        (parent x = None \<and> root x = None) \<or>
        (\<exists>p r. parent x = Some p \<and> root x = Some r \<and> topmost d' (mid x) r)"
    using old new by (auto simp: app)
  with dist show ?thesis by (simp add: root_invariant_def)
qed

lemma create_messages:
  assumes "create kw now d = (res, d')"
  shows "messages d' = messages d \<or>
     (\<exists>m root_obj. message_root kw d = Inr root_obj \<and> messages d' = messages d @ [m] \<and>
        mid m = new_message_id d \<and> parent m = map_option mid (kw_parent kw) \<and>
        root m = map_option mid root_obj)"
  using assms unfolding create_def Let_def
  by (auto split: sum.splits arg.splits option.splits if_splits)

lemma message_root_rule:
  assumes "message_root kw d = Inr root_obj"
  shows "map_option mid root_obj =
     (case kw_root kw of
        Some r \<Rightarrow> Some (mid r)
      | None \<Rightarrow>
          (case kw_parent kw of
             None \<Rightarrow> None
           | Some p \<Rightarrow> (case root p of Some rid \<Rightarrow> Some rid | None \<Rightarrow> Some (mid p))))"
proof (cases "kw_root kw")
  case (Some r)
  with assms show ?thesis by (auto simp: message_root_def)
next
  case None
  note no_root = None
  show ?thesis
  proof (cases "kw_parent kw")
    case None
    with assms no_root show ?thesis by (auto simp: message_root_def)
  next
    case (Some p)
    note par = Some
    show ?thesis
    proof (cases "root p")
      case None
      with assms no_root par show ?thesis by (auto simp: message_root_def)
    next
      case (Some rid)
      with assms no_root par obtain r where r: "get_message rid d = Some r" "root_obj = Some r"
        by (cases "get_message rid d") (auto simp: message_root_def)
      from get_message_Some [OF r(1)] have "mid r = rid" by simp
      with r no_root par Some show ?thesis by simp
    qed
  qed
qed

lemma create_preserves:
  assumes inv: "root_invariant d"
    and no_root: "kw_root kw = None"
    and stored: "\<forall>p. kw_parent kw = Some p \<longrightarrow> p \<in> set (messages d)"
  shows "root_invariant (snd (create kw now d))"
proof -
  obtain res d' where c: "create kw now d = (res, d')"
    by (cases "create kw now d")
  from create_messages [OF c] have "root_invariant d'"
  proof
    assume "messages d' = messages d"
    then show ?thesis
      using root_invariant_same_shape [OF inv, of d'] by simp
  next
    assume "\<exists>m root_obj. message_root kw d = Inr root_obj \<and> messages d' = messages d @ [m] \<and>
        mid m = new_message_id d \<and> parent m = map_option mid (kw_parent kw) \<and>
        root m = map_option mid root_obj"
    then obtain m root_obj where m: "message_root kw d = Inr root_obj"
      "messages d' = messages d @ [m]" "mid m = new_message_id d"
      "parent m = map_option mid (kw_parent kw)" "root m = map_option mid root_obj"
      by blast
    have rm: "root m = (case kw_parent kw of None \<Rightarrow> None
         | Some p \<Rightarrow> (case root p of Some rid \<Rightarrow> Some rid | None \<Rightarrow> Some (mid p)))"
      using message_root_rule [OF m(1)] m(5) no_root by simp
    have "(parent m = None \<and> root m = None) \<or>
               (\<exists>p r. p \<in> set (messages d) \<and> parent m = Some (mid p) \<and> root m = Some r \<and>
                      (root p = None \<and> r = mid p \<or> root p = Some r))"
    proof (cases "kw_parent kw")
      case None
      with m(4) rm show ?thesis by simp
    next
      case (Some p)
      with stored have "p \<in> set (messages d)" by simp
      with Some m(4) rm show ?thesis
        by (cases "root p") auto
    qed
    from root_invariant_append [OF inv m(2) m(3) this] show ?thesis .
  qed
  with c show ?thesis by simp
qed

lemma create_thread_preserves:
  assumes inv: "root_invariant d"
  shows "root_invariant (snd (create_thread s rs t now d))"
proof -
  let ?K = "\<lparr>kw_root = None, kw_parent = None,
             kw_text = (case t of None \<Rightarrow> PyNone | Some x \<Rightarrow> Given x),
             kw_headline = Absent, kw_sender = s,
             kw_message_type = Some STORED,
             kw_senders_info = Some (username s)\<rparr>"
  have inv1: "root_invariant (snd (create ?K now d))"
    by (rule create_preserves [OF inv]) simp_all
  obtain r1 d1 where c: "create ?K now d = (r1, d1)"
    by (cases "create ?K now d")
  have "messages (snd (create_thread s rs t now d)) = messages d1"
  proof (cases r1)
    case (Inl e)
    with c show ?thesis by (simp add: create_thread_def)
  next
    case (Inr m)
    obtain r2 d2 where a: "add_recipients m rs d1 = (r2, d2)"
      by (cases "add_recipients m rs d1")
    from add_recipients_tables [OF a] have "messages d2 = messages d1" by simp
    moreover have "snd (create_thread s rs t now d) = d2"
      using c Inr a by (cases r2) (simp_all add: create_thread_def)
    ultimately show ?thesis by simp
  qed
  then show ?thesis
    using root_invariant_same_shape [of d1 "snd (create_thread s rs t now d)"] inv1 c
    by simp
qed

lemma update_senders_info_shape:
  assumes u: "update_senders_info self d = (res, d')"
    and ex: "\<exists>x \<in> set (messages d). mid x = mid self"
    and same: "\<forall>x \<in> set (messages d). mid x = mid self \<longrightarrow>
                 parent x = parent self \<and> root x = root self"
  shows "map (\<lambda>m. (mid m, parent m, root m)) (messages d') =
         map (\<lambda>m. (mid m, parent m, root m)) (messages d)"
proof (cases "get_user (sender self) d")
  case None
  with u have "d' = d" by (simp add: update_senders_info_def)
  then show ?thesis by simp
next
  case (Some usr)
  then obtain self' where d': "d' = save self' d" and
    f: "mid self' = mid self" "parent self' = parent self" "root self' = root self"
    using u by (auto simp: update_senders_info_def Let_def)
  have "messages d' = map (\<lambda>x. if mid x = mid self' then self' else x) (messages d)"
    using ex f(1) by (auto simp: d' save_def)
  then show ?thesis
    using same f by (auto simp: comp_def)
qed

lemma message_root_stored:
  assumes "message_root kw d = Inr (Some r)"
    and "kw_root kw = None" and "kw_parent kw = Some p" and "p \<in> set (messages d)"
  shows "r \<in> set (messages d)"
proof (cases "root p")
  case None
  with assms show ?thesis by (simp add: message_root_def)
next
  case (Some rid)
  with assms have "get_message rid d = Some r"
    by (cases "get_message rid d") (auto simp: message_root_def)
  from get_message_Some [OF this] show ?thesis by simp
qed

lemma create_response_preserves:
  assumes inv: "root_invariant d"
    and stored: "p \<in> set (messages d)"
  shows "root_invariant (snd (create_response s t (Some p) t_sent now d))"
proof -
  let ?K = "response_kwargs s t (Some p)"
  let ?shape = "\<lambda>m::message. (mid m, parent m, root m)"
  have K: "kw_root ?K = None" "kw_parent ?K = Some p"
    by (simp_all add: response_kwargs_def)
  have inv1: "root_invariant (snd (create ?K t_sent d))"
    by (rule create_preserves [OF inv]) (simp_all add: K stored)
  obtain r1 d1 where c: "create ?K t_sent d = (r1, d1)"
    by (cases "create ?K t_sent d")
  from inv1 c have inv_d1: "root_invariant d1" by simp
  have sub: "set (messages d) \<subseteq> set (messages d1)"
    using create_messages [OF c] by auto
  have "map ?shape (messages (snd (create_response s t (Some p) t_sent now d))) =
        map ?shape (messages d1)"
  proof (cases r1)
    case (Inl e)
    with c show ?thesis by (simp add: create_response_def)
  next
    case (Inr m1)
    note r1 = Inr
    show ?thesis
    proof (cases "get_user (sender p) d1")
      case None
      with c r1 show ?thesis by (simp add: create_response_def Let_def)
    next
      case (Some usr)
      note usr = Some
      show ?thesis
      proof (cases "get_personal_group usr d1")
        case (Inl e)
        with c r1 usr show ?thesis by (simp add: create_response_def Let_def)
      next
        case (Inr sg)
        note sg = Inr
        let ?rs = "m2m_add sg (remdups (recipients_all p d1))"
        obtain r2 d2 where a2: "add_recipients m1 ?rs d1 = (r2, d2)"
          by (cases "add_recipients m1 ?rs d1")
        from add_recipients_tables [OF a2] have m2: "messages d2 = messages d1" by simp
        show ?thesis
        proof (cases r2)
          case (Inl e)
          with c r1 usr sg a2 m2 show ?thesis by (simp add: create_response_def Let_def)
        next
          case (Inr x2)
          note r2 = Inr
          obtain r3 d3 where a3: "add_recipients p [sg] d2 = (r3, d3)"
            by (cases "add_recipients p [sg] d2")
          from add_recipients_tables [OF a3] m2 have m3: "messages d3 = messages d1" by simp
          show ?thesis
          proof (cases r3)
            case (Inl e)
            with c r1 usr sg a2 r2 a3 m3 show ?thesis
              by (simp add: create_response_def Let_def)
          next
            case (Inr x3)
            note r3 = Inr
            show ?thesis
            proof (cases "message_root ?K d")
              case (Inl e)
              with c r1 usr sg a2 r2 a3 r3 m3 show ?thesis
                by (simp add: create_response_def Let_def)
            next
              case (Inr ro)
              note mr = Inr
              show ?thesis
              proof (cases ro)
                case None
                with c r1 usr sg a2 r2 a3 r3 m3 mr show ?thesis
                  by (simp add: create_response_def Let_def)
              next
                case (Some r)
                note ro = Some
                let ?r = "r\<lparr>last_active_at := now\<rparr>"
                obtain r4 d4 where a4: "update_senders_info ?r d3 = (r4, d4)"
                  by (cases "update_senders_info ?r d3")
                have r_in: "r \<in> set (messages d1)"
                  using message_root_stored [OF _ K stored, of r] mr ro sub by auto
                have inj: "inj_on mid (set (messages d1))"
                  using inv_d1 by (simp add: root_invariant_def distinct_map)
                have ex: "\<exists>x \<in> set (messages d3). mid x = mid ?r"
                  using r_in m3 by auto
                have same: "\<forall>x \<in> set (messages d3). mid x = mid ?r \<longrightarrow>
                    parent x = parent ?r \<and> root x = root ?r"
                proof (intro ballI impI)
                  fix x assume "x \<in> set (messages d3)" "mid x = mid ?r"
                  with m3 r_in inj have "x = r" by (auto dest: inj_onD)
                  then show "parent x = parent ?r \<and> root x = root ?r" by simp
                qed
                have m4: "map ?shape (messages d4) = map ?shape (messages d1)"
                  using update_senders_info_shape [OF a4 ex same] m3 by simp
                show ?thesis
                proof (cases r4)
                  case (Inl e)
                  with c r1 usr sg a2 r2 a3 r3 mr ro a4 m4 show ?thesis
                    by (simp add: create_response_def Let_def)
                next
                  case (Inr r')
                  with c r1 usr sg a2 r2 a3 r3 mr ro a4 m4 show ?thesis
                    by (simp add: create_response_def Let_def unarchive_def)
                qed
              qed
            qed
          qed
        qed
      qed
    qed
  qed
  from root_invariant_same_shape [OF inv_d1 this] show ?thesis .
qed

lemma reachable_root_invariant:
  assumes "reachable d"
  shows "root_invariant d"
  using assms
proof (induction rule: reachable.induct)
  case (init d)
  then show ?case by (simp add: root_invariant_def)
next
  case (thread d s rs t now)
  then show ?case by (simp add: create_thread_preserves)
next
  case (response d p s t t_sent now)
  then show ?case by (simp add: create_response_preserves)
qed

lemma root_is_topmost:
  assumes inv: "root_invariant d" and m: "m \<in> set (messages d)" and r: "root m = Some r"
  shows "topmost d (mid m) r \<and> (\<forall>r'. topmost d (mid m) r' \<longrightarrow> r' = r) \<and>
         (\<exists>rm \<in> set (messages d). mid rm = r \<and> parent rm = None \<and> root rm = None)"
proof -
  from inv m r have t: "topmost d (mid m) r"
    by (auto simp: root_invariant_def)
  from topmost_end [OF t] obtain rm where rm: "get_message r d = Some rm" "parent rm = None"
    by blast
  from get_message_Some [OF rm(1)] have rm_in: "mid rm = r" "rm \<in> set (messages d)"
    by simp_all
  from inv rm_in(2) rm(2) have "root rm = None"
    by (auto simp: root_invariant_def)
  with t rm rm_in topmost_unique [OF t] show ?thesis by blast
qed

lemma ex_reachable: "reachable ex_db1 \<and> reachable ex_db2"
proof -
  have "messages ex_db0 = []" by (simp add: ex_db0_def)
  then have r0: "reachable ex_db0" by (rule reachable.init)
  from reachable.thread [OF r0, of user_a "[group_all]" "Some ''hello''" 5]
  have r1: "reachable ex_db1" by (simp add: ex_db1_def)
  have "ex_msg1 \<in> set (messages ex_db1)" by code_simp
  from reachable.response [OF r1 this, of user_b "Some ''re''" 6 7]
  have "reachable ex_db2" by (simp add: ex_db2_def)
  with r1 show ?thesis by simp
qed

lemma ex_db3_eval:
  "create ex_root_kwargs 9 ex_db1 = (Inr ex_msg3, ex_db3) \<and>
   get_message 2 ex_db3 = Some ex_msg3 \<and> mid ex_msg3 = 2 \<and>
   root ex_msg3 = Some 1 \<and> parent ex_msg3 = None"
  by code_simp

text \<open>
  Claim C4, as the claim states it, fails. On the store with the thread of A, which
  satisfies the invariant, \<open>create\<close> is called with that thread as the explicit root
  and with no parent. The root is used: the new message has the root 1. It has no
  parent, so that following the parents from it ends at the message itself, with key
  2, and not at its root.
\<close>

theorem explicit_root_counterexample:
  "root_invariant ex_db1 \<and>
   create ex_root_kwargs 9 ex_db1 = (Inr ex_msg3, ex_db3) \<and>
   root ex_msg3 = Some 1 \<and>
   parent ex_msg3 = None \<and>
   topmost ex_db3 (mid ex_msg3) 2 \<and>
   \<not> topmost ex_db3 (mid ex_msg3) 1 \<and>
   \<not> root_invariant ex_db3"
proof -
  have inv1: "root_invariant ex_db1"
    using ex_reachable reachable_root_invariant by blast
  have t: "topmost ex_db3 (mid ex_msg3) 2"
    using ex_db3_eval topmost.top [of 2 ex_db3 ex_msg3] by simp
  have nt: "\<not> topmost ex_db3 (mid ex_msg3) 1"
  proof
    assume "topmost ex_db3 (mid ex_msg3) 1"
    from topmost_unique [OF t this] show False by simp
  qed
  have "ex_msg3 \<in> set (messages ex_db3)"
    using ex_db3_eval get_message_Some [of 2 ex_db3 ex_msg3] by simp
  with nt ex_db3_eval have "\<not> root_invariant ex_db3"
    by (auto simp: root_invariant_def)
  with inv1 t nt ex_db3_eval show ?thesis by simp
qed

text \<open>
  Claim C4, amended. The root of a message that \<open>create\<close> returns is the explicit root
  when one is passed; else the root of the parent when the parent has one, the parent
  itself when it has none, and no root without a parent. A call of \<open>create\<close> without
  explicit root, with no parent or a stored one, keeps the invariant of the roots, and
  every store built by \<open>create_thread\<close> and \<open>create_response\<close> has it. Under the
  invariant the root of every message is null, or it is the one message that following
  the parents ends at, a stored message with neither parent nor root; two messages
  with the same root end at the same message.
\<close>

theorem root_rule_and_invariant:
  "(create kw now d = (Inr m, d') \<longrightarrow>
      root m =
        (case kw_root kw of
           Some r \<Rightarrow> Some (mid r)
         | None \<Rightarrow>
             (case kw_parent kw of
                None \<Rightarrow> None
              | Some p \<Rightarrow> (case root p of Some rid \<Rightarrow> Some rid | None \<Rightarrow> Some (mid p))))) \<and>
   (root_invariant d \<and> kw_root kw = None \<and>
      (\<forall>p. kw_parent kw = Some p \<longrightarrow> p \<in> set (messages d)) \<longrightarrow>
      root_invariant (snd (create kw now d))) \<and>
   (reachable d \<longrightarrow> root_invariant d) \<and>
   (root_invariant d \<longrightarrow>
      (\<forall>x \<in> set (messages d).
         root x = None \<or>
         (\<exists>r. root x = Some r \<and> topmost d (mid x) r \<and>
              (\<forall>r'. topmost d (mid x) r' \<longrightarrow> r' = r) \<and>
              (\<exists>rm \<in> set (messages d). mid rm = r \<and> parent rm = None \<and> root rm = None)))) \<and>
   (root_invariant d \<longrightarrow>
      (\<forall>x \<in> set (messages d). \<forall>y \<in> set (messages d). \<forall>r.
         root x = Some r \<and> root y = Some r \<longrightarrow>
         topmost d (mid x) r \<and> topmost d (mid y) r))"
proof (intro conjI impI)
  assume c: "create kw now d = (Inr m, d')"
  from create_Inr [OF c] obtain root_obj where
    "message_root kw d = Inr root_obj" "root m = map_option mid root_obj" by blast
  with message_root_rule [of kw d root_obj]
  show "root m =
        (case kw_root kw of
           Some r \<Rightarrow> Some (mid r)
         | None \<Rightarrow>
             (case kw_parent kw of
                None \<Rightarrow> None
              | Some p \<Rightarrow> (case root p of Some rid \<Rightarrow> Some rid | None \<Rightarrow> Some (mid p))))"
    by simp
next
  assume "root_invariant d \<and> kw_root kw = None \<and>
      (\<forall>p. kw_parent kw = Some p \<longrightarrow> p \<in> set (messages d))"
  then show "root_invariant (snd (create kw now d))"
    using create_preserves by blast
next
  assume "reachable d"
  then show "root_invariant d" by (rule reachable_root_invariant)
next
  assume inv: "root_invariant d"
  show "\<forall>x \<in> set (messages d).
         root x = None \<or>
         (\<exists>r. root x = Some r \<and> topmost d (mid x) r \<and>
              (\<forall>r'. topmost d (mid x) r' \<longrightarrow> r' = r) \<and>
              (\<exists>rm \<in> set (messages d). mid rm = r \<and> parent rm = None \<and> root rm = None))"
  proof
    fix x assume x: "x \<in> set (messages d)"
    show "root x = None \<or>
         (\<exists>r. root x = Some r \<and> topmost d (mid x) r \<and>
              (\<forall>r'. topmost d (mid x) r' \<longrightarrow> r' = r) \<and>
              (\<exists>rm \<in> set (messages d). mid rm = r \<and> parent rm = None \<and> root rm = None))"
    proof (cases "root x")
      case None
      then show ?thesis by simp
    next
      case (Some r)
      from root_is_topmost [OF inv x Some] Some show ?thesis by simp
    qed
  qed
next
  assume inv: "root_invariant d"
  show "\<forall>x \<in> set (messages d). \<forall>y \<in> set (messages d). \<forall>r.
         root x = Some r \<and> root y = Some r \<longrightarrow>
         topmost d (mid x) r \<and> topmost d (mid y) r"
    using root_is_topmost [OF inv] by blast
qed

lemma ex_response_create:
  "create (response_kwargs user_b (Some ''re'') (Some ex_msg1)) 6 ex_db1 =
     (Inr ex_msg2, snd (create (response_kwargs user_b (Some ''re'') (Some ex_msg1)) 6 ex_db1)) \<and>
   kw_root (response_kwargs user_b (Some ''re'') (Some ex_msg1)) = None \<and>
   kw_parent (response_kwargs user_b (Some ''re'') (Some ex_msg1)) = Some ex_msg1 \<and>
   root ex_msg1 = None \<and> mid ex_msg1 = 1 \<and> ex_msg1 \<in> set (messages ex_db1) \<and>
   ex_msg2 \<in> set (messages ex_db2) \<and> mid ex_msg2 = 2"
  by code_simp

text \<open>
  The answer of B to the thread of A gets the thread as its root; the store after the
  answer is built by \<open>create_thread\<close> and \<open>create_response\<close> and has the invariant, and
  following the parents from the answer ends at the thread.
\<close>

theorem root_rule_and_invariant_witness:
  "root ex_msg2 = Some 1 \<and>
   root_invariant (snd (create (response_kwargs user_b (Some ''re'') (Some ex_msg1)) 6 ex_db1)) \<and>
   root_invariant ex_db2 \<and>
   topmost ex_db2 (mid ex_msg2) 1"
proof -
  let ?K = "response_kwargs user_b (Some ''re'') (Some ex_msg1)"
  note t1 = root_rule_and_invariant [of ?K 6 ex_db1 ex_msg2 "snd (create ?K 6 ex_db1)"]
  note t2 = root_rule_and_invariant [where d = ex_db2]
  have root2: "root ex_msg2 = Some 1"
    using t1 ex_response_create by simp
  have inv1: "root_invariant ex_db1"
    using t1 ex_reachable by blast
  have "\<forall>p. kw_parent ?K = Some p \<longrightarrow> p \<in> set (messages ex_db1)"
    using ex_response_create by simp
  with inv1 t1 ex_response_create
  have inv_c: "root_invariant (snd (create ?K 6 ex_db1))" by blast
  have inv2: "root_invariant ex_db2"
    using t2 ex_reachable by blast
  have "root ex_msg2 = None \<or>
         (\<exists>r. root ex_msg2 = Some r \<and> topmost ex_db2 (mid ex_msg2) r \<and>
              (\<forall>r'. topmost ex_db2 (mid ex_msg2) r' \<longrightarrow> r' = r) \<and>
              (\<exists>rm \<in> set (messages ex_db2). mid rm = r \<and> parent rm = None \<and> root rm = None))"
    using t2 inv2 ex_response_create by blast
  with root2 have "topmost ex_db2 (mid ex_msg2) 1" by auto
  with root2 inv_c inv2 show ?thesis by simp
qed

section \<open>The memo of the sender\<close>










end
